theory Spec2Isabelle
  imports Main
begin

section \<open>Per-agent Python environments (portal/env\_manager.py)\<close>

text \<open>
  The module has three functions: \<^verbatim>\<open>_python_executable\<close>, \<^verbatim>\<open>ensure_env\<close> and
  \<^verbatim>\<open>run\<close>. They compute paths and argument vectors and call into the file system,
  \<^verbatim>\<open>venv\<close> and \<^verbatim>\<open>subprocess\<close>. The embedding keeps the three functions as they are
  written and makes everything around them explicit: paths are values, the file system
  is the set of paths that exist, every library call that touches the outside is an
  event appended to a trace together with its outcome, and every exception is a value.
\<close>

subsection \<open>Paths (pathlib)\<close>

text \<open>
  A \<^verbatim>\<open>Path\<close> is its anchor (\<^verbatim>\<open>/\<close>, a drive, or empty for a relative path) and its
  components. \<^verbatim>\<open>p / seg\<close> appends one component: the program joins only the fixed
  names \<^verbatim>\<open>.agents\<close>, \<^verbatim>\<open>Scripts\<close>, \<^verbatim>\<open>python.exe\<close>, \<^verbatim>\<open>bin\<close>, \<^verbatim>\<open>python\<close>,
  \<^verbatim>\<open>.requirements_installed\<close>, \<^verbatim>\<open>requirements.txt\<close>, \<^verbatim>\<open>main.py\<close>, and the agent
  name, which is used verbatim as one directory segment. pathlib itself drops an empty
  or \<^verbatim>\<open>.\<close> segment, splits a segment at separators and lets an absolute segment
  replace the path; agent names of that kind (and the agent directory \<^verbatim>\<open>/\<close>, whose
  name is empty) are not names of one directory segment and are not modelled.
\<close>

datatype path = Path (anchor: string) (parts: "string list")

definition joinpath :: "path \<Rightarrow> string \<Rightarrow> path" where
  "joinpath p seg = Path (anchor p) (parts p @ [seg])"

definition parent :: "path \<Rightarrow> path" where
  "parent p = Path (anchor p) (butlast (parts p))"

text \<open>\<^verbatim>\<open>Path.name\<close>: the final component, the empty string when there is none.\<close>

definition name :: "path \<Rightarrow> string" where
  "name p = (if parts p = [] then [] else last (parts p))"

fun join_str :: "string \<Rightarrow> string list \<Rightarrow> string" where
  "join_str s [] = []"
| "join_str s [x] = x"
| "join_str s (x # y # ys) = x @ s @ join_str s (y # ys)"

primrec inits :: "'a list \<Rightarrow> 'a list list" where
  "inits [] = [[]]"
| "inits (x # xs) = [] # map (Cons x) (inits xs)"

text \<open>The directory itself and all its ancestors, root first.\<close>

definition dir_chain :: "path \<Rightarrow> path list" where
  "dir_chain p = map (Path (anchor p)) (inits (parts p))"

subsection \<open>The host: platform, home directory, path flavour\<close>

text \<open>
  \<open>os_name\<close> is \<^verbatim>\<open>os.name\<close>, \<open>home\<close> is \<^verbatim>\<open>Path.home()\<close>, \<open>sep\<close> is the separator
  pathlib's \<^verbatim>\<open>str()\<close> puts between components, \<open>resolve\<close> is \<^verbatim>\<open>Path.resolve()\<close>
  (it reads the current directory and the symbolic links of the host).
\<close>

record host =
  os_name :: string
  home :: path
  sep :: string
  resolve :: "path \<Rightarrow> path"

definition str_path :: "host \<Rightarrow> path \<Rightarrow> string" where
  "str_path h p =
     (if anchor p = [] \<and> parts p = [] then ''.''
      else anchor p @ join_str (sep h) (parts p))"

subsection \<open>The outside world: file system, events, outcomes\<close>

text \<open>
  The file system is the set of paths that exist. A library call changes it as its
  contract says: \<^verbatim>\<open>mkdir(parents=True)\<close> and a successful \<^verbatim>\<open>venv.create\<close> bring the
  directory and its ancestors into existence, \<^verbatim>\<open>touch\<close> the file. What the processes
  started by \<^verbatim>\<open>check_call\<close> and \<^verbatim>\<open>run\<close> do to the disk, and the files \<^verbatim>\<open>venv.create\<close>
  lays down inside the environment, are not tracked.
\<close>

text \<open>
  Exceptions. \<open>CalledProcessError\<close> is \<^verbatim>\<open>subprocess.CalledProcessError\<close> with its
  \<^verbatim>\<open>returncode\<close> and \<^verbatim>\<open>cmd\<close>: one class, raised by \<^verbatim>\<open>check_call\<close> and by
  \<^verbatim>\<open>run(check=True)\<close> alike, and by \<^verbatim>\<open>venv.create\<close> when its own \<^verbatim>\<open>ensurepip\<close> process
  fails. \<open>OSError\<close> stands for every other exception of a library call (a directory
  that cannot be made, a program that cannot be started).
\<close>

datatype error = OSError | CalledProcessError int "string list"

datatype venv_outcome = Created | CreateFailed bool error

text \<open>
  One event per library call with an effect, with what came of it:
  \<^item> \<open>Mkdir p ok\<close>: \<^verbatim>\<open>p.mkdir(parents=True, exist_ok=True)\<close>;
  \<^item> \<open>VenvCreate p r\<close>: \<^verbatim>\<open>venv.create(p, with_pip=True)\<close>; \<open>CreateFailed left e\<close> says
    whether the failed creation left the directory behind, and what it raised;
  \<^item> \<open>CheckCall argv rc\<close>: \<^verbatim>\<open>subprocess.check_call(argv)\<close>; \<open>rc\<close> is the exit status,
    \<open>None\<close> when the process could not be started;
  \<^item> \<open>Touch p ok\<close>: \<^verbatim>\<open>p.touch()\<close>;
  \<^item> \<open>SubprocessRun argv cwd rc\<close>: \<^verbatim>\<open>subprocess.run(argv, cwd=cwd, check=True)\<close>.
\<close>

datatype event =
    Mkdir path bool
  | VenvCreate path venv_outcome
  | CheckCall "string list" "int option"
  | Touch path bool
  | SubprocessRun "string list" string "int option"

record world =
  fs :: "path set"
  trace :: "event list"

text \<open>
  What the outside answers to each call, as a function of the world at that moment
  (the trace included, so a second attempt may be answered differently).
\<close>

record outside =
  mkdir_ok :: "world \<Rightarrow> path \<Rightarrow> bool"
  venv_result :: "world \<Rightarrow> path \<Rightarrow> venv_outcome"
  touch_ok :: "world \<Rightarrow> path \<Rightarrow> bool"
  exit_status :: "world \<Rightarrow> string list \<Rightarrow> string option \<Rightarrow> int option"

record completed_process =
  args :: "string list"
  returncode :: int

definition log :: "event \<Rightarrow> world \<Rightarrow> world" where
  "log e w = w\<lparr>trace := trace w @ [e]\<rparr>"

definition mkdir_parents :: "outside \<Rightarrow> path \<Rightarrow> world \<Rightarrow> (error + unit) \<times> world" where
  "mkdir_parents orc p w =
     (if mkdir_ok orc w p
      then (Inr (), log (Mkdir p True) (w\<lparr>fs := fs w \<union> set (dir_chain p)\<rparr>))
      else (Inl OSError, log (Mkdir p False) w))"

definition venv_create :: "outside \<Rightarrow> path \<Rightarrow> world \<Rightarrow> (error + unit) \<times> world" where
  "venv_create orc p w =
     (case venv_result orc w p of
        Created \<Rightarrow>
          (Inr (), log (VenvCreate p Created) (w\<lparr>fs := fs w \<union> set (dir_chain p)\<rparr>))
      | CreateFailed left e \<Rightarrow>
          (Inl e,
           log (VenvCreate p (CreateFailed left e))
             (w\<lparr>fs := (if left then insert p (fs w) else fs w)\<rparr>)))"

definition check_call :: "outside \<Rightarrow> string list \<Rightarrow> world \<Rightarrow> (error + unit) \<times> world" where
  "check_call orc argv w =
     (let rc = exit_status orc w argv None; w' = log (CheckCall argv rc) w in
      case rc of
        None \<Rightarrow> (Inl OSError, w')
      | Some c \<Rightarrow>
          if c \<noteq> 0 then (Inl (CalledProcessError c argv), w')
          else (Inr (), w'))"

definition touch :: "outside \<Rightarrow> path \<Rightarrow> world \<Rightarrow> (error + unit) \<times> world" where
  "touch orc p w =
     (if touch_ok orc w p
      then (Inr (), log (Touch p True) (w\<lparr>fs := insert p (fs w)\<rparr>))
      else (Inl OSError, log (Touch p False) w))"

definition subprocess_run ::
  "outside \<Rightarrow> string list \<Rightarrow> string \<Rightarrow> world \<Rightarrow> (error + completed_process) \<times> world" where
  "subprocess_run orc argv cwd w =
     (let rc = exit_status orc w argv (Some cwd); w' = log (SubprocessRun argv cwd rc) w in
      case rc of
        None \<Rightarrow> (Inl OSError, w')
      | Some c \<Rightarrow>
          if c \<noteq> 0 then (Inl (CalledProcessError c argv), w')
          else (Inr \<lparr>args = argv, returncode = c\<rparr>, w'))"

subsection \<open>The module\<close>

text \<open>\<^verbatim>\<open>_python_executable(env_path)\<close>\<close>

definition python_executable :: "host \<Rightarrow> path \<Rightarrow> path" where
  "python_executable h env_path =
     (if os_name h = ''nt''
      then joinpath (joinpath env_path ''Scripts'') ''python.exe''
      else joinpath (joinpath env_path ''bin'') ''python'')"

text \<open>
  \<^verbatim>\<open>ensure_env(agent_name, requirements=None)\<close>. The local names \<open>env_dir\<close> and
  \<open>marker\<close> and the installer's argument vector are definitions of their own, so that
  statements can name them. In \<^verbatim>\<open>if requirements and requirements.exists() and ...\<close>
  the first test separates \<^verbatim>\<open>None\<close> from a \<^verbatim>\<open>Path\<close>, which is always true.
\<close>

definition env_dir_of :: "host \<Rightarrow> string \<Rightarrow> path" where
  "env_dir_of h agent_name = joinpath (joinpath (home h) ''.agents'') agent_name"

definition marker_of :: "host \<Rightarrow> string \<Rightarrow> path" where
  "marker_of h agent_name = joinpath (env_dir_of h agent_name) ''.requirements_installed''"

definition pip_argv :: "host \<Rightarrow> path \<Rightarrow> path \<Rightarrow> string list" where
  "pip_argv h env_dir requirements =
     [str_path h (python_executable h env_dir), ''-m'', ''pip'', ''install'', ''-r'',
      str_path h requirements]"

definition ensure_env ::
  "host \<Rightarrow> outside \<Rightarrow> string \<Rightarrow> path option \<Rightarrow> world \<Rightarrow> (error + path) \<times> world" where
  "ensure_env h orc agent_name requirements w =
     (let env_dir = env_dir_of h agent_name;
          created =
            (if env_dir \<notin> fs w then
               (case mkdir_parents orc (parent env_dir) w of
                  (Inl e, w1) \<Rightarrow> (Inl e, w1)
                | (Inr u, w1) \<Rightarrow> venv_create orc env_dir w1)
             else (Inr (), w))
      in case created of
           (Inl e, w2) \<Rightarrow> (Inl e, w2)
         | (Inr u, w2) \<Rightarrow>
             (let marker = joinpath env_dir ''.requirements_installed'' in
              case requirements of
                None \<Rightarrow> (Inr env_dir, w2)
              | Some req \<Rightarrow>
                  if req \<in> fs w2 \<and> marker \<notin> fs w2 then
                    (case check_call orc (pip_argv h env_dir req) w2 of
                       (Inl e, w3) \<Rightarrow> (Inl e, w3)
                     | (Inr u, w3) \<Rightarrow>
                         (case touch orc marker w3 of
                            (Inl e, w4) \<Rightarrow> (Inl e, w4)
                          | (Inr u, w4) \<Rightarrow> (Inr env_dir, w4)))
                  else (Inr env_dir, w2)))"

text \<open>
  \<^verbatim>\<open>run(agent_path, command=None)\<close>. A command is \<^verbatim>\<open>None\<close>, one \<^verbatim>\<open>str\<close> or
  \<^verbatim>\<open>Path\<close> (the \<^verbatim>\<open>isinstance\<close> branch), or a sequence whose elements go through
  \<^verbatim>\<open>str()\<close>.
\<close>

datatype pyarg = StrArg string | PathArg path

datatype command = Token pyarg | Tokens "pyarg list"

fun str_arg :: "host \<Rightarrow> pyarg \<Rightarrow> string" where
  "str_arg h (StrArg s) = s"
| "str_arg h (PathArg p) = str_path h p"

definition cmd_of :: "host \<Rightarrow> path \<Rightarrow> command option \<Rightarrow> string list" where
  "cmd_of h agent_dir command =
     (case command of
        None \<Rightarrow> [str_path h (joinpath agent_dir ''main.py'')]
      | Some (Token c) \<Rightarrow> [str_arg h c]
      | Some (Tokens cs) \<Rightarrow> map (str_arg h) cs)"

definition run ::
  "host \<Rightarrow> outside \<Rightarrow> path \<Rightarrow> command option \<Rightarrow> world \<Rightarrow>
   (error + completed_process) \<times> world" where
  "run h orc agent_path command w =
     (let agent_dir = resolve h agent_path;
          agent_name = name agent_dir
      in case ensure_env h orc agent_name (Some (joinpath agent_dir ''requirements.txt'')) w of
           (Inl e, w1) \<Rightarrow> (Inl e, w1)
         | (Inr env_dir, w1) \<Rightarrow>
             (let env_python = python_executable h env_dir;
                  cmd = cmd_of h agent_dir command;
                  full_cmd = [str_path h env_python] @ cmd
              in subprocess_run orc full_cmd (str_path h agent_dir) w1))"

text \<open>
  The worlds \<^verbatim>\<open>ensure_env\<close> passes through when the environment directory is
  missing and both creation steps succeed: after \<^verbatim>\<open>env_dir.parent.mkdir(...)\<close>, and
  after \<^verbatim>\<open>venv.create(env_dir, with_pip=True)\<close>.
\<close>

definition made_parents :: "host \<Rightarrow> string \<Rightarrow> world \<Rightarrow> world" where
  "made_parents h n w =
     log (Mkdir (parent (env_dir_of h n)) True)
       (w\<lparr>fs := fs w \<union> set (dir_chain (parent (env_dir_of h n)))\<rparr>)"

definition made_env :: "host \<Rightarrow> string \<Rightarrow> world \<Rightarrow> world" where
  "made_env h n w =
     log (VenvCreate (env_dir_of h n) Created)
       ((made_parents h n w)
          \<lparr>fs := fs (made_parents h n w) \<union> set (dir_chain (env_dir_of h n))\<rparr>)"

text \<open>The world in which \<^verbatim>\<open>ensure_env\<close> goes on to the marker, when creation did not fail.\<close>

definition settled :: "host \<Rightarrow> string \<Rightarrow> world \<Rightarrow> world" where
  "settled h n w = (if env_dir_of h n \<in> fs w then w else made_env h n w)"

subsection \<open>Reading a trace\<close>

text \<open>The events a call added: the trace after it, without the trace before it.\<close>

definition events_since :: "world \<Rightarrow> world \<Rightarrow> event list" where
  "events_since w w' = drop (length (trace w)) (trace w')"

fun is_installer_call :: "event \<Rightarrow> bool" where
  "is_installer_call (CheckCall argv rc) = True"
| "is_installer_call e = False"

fun is_subprocess :: "event \<Rightarrow> bool" where
  "is_subprocess (CheckCall argv rc) = True"
| "is_subprocess (SubprocessRun argv cwd rc) = True"
| "is_subprocess e = False"

fun is_run :: "event \<Rightarrow> bool" where
  "is_run (SubprocessRun argv cwd rc) = True"
| "is_run e = False"

fun is_creation :: "event \<Rightarrow> bool" where
  "is_creation (Mkdir p ok) = True"
| "is_creation (VenvCreate p r) = True"
| "is_creation e = False"

fun is_touch :: "event \<Rightarrow> bool" where
  "is_touch (Touch p ok) = True"
| "is_touch e = False"

text \<open>
  The event of \<^verbatim>\<open>subprocess.run(argv, cwd=cwd, check=True)\<close> made in the world \<open>w\<close>, and
  the text of \<^verbatim>\<open>env_python\<close> in \<^verbatim>\<open>run(agent_path, ...)\<close>.
\<close>

definition spawned :: "outside \<Rightarrow> string list \<Rightarrow> string \<Rightarrow> world \<Rightarrow> event" where
  "spawned orc argv cwd w = SubprocessRun argv cwd (exit_status orc w argv (Some cwd))"

definition interpreter :: "host \<Rightarrow> path \<Rightarrow> string" where
  "interpreter h agent_path =
     str_path h (python_executable h (env_dir_of h (name (resolve h agent_path))))"

text \<open>The call behind the event did what it was asked to (exit status 0 for a process).\<close>

fun succeeded :: "event \<Rightarrow> bool" where
  "succeeded (Mkdir p ok) = ok"
| "succeeded (VenvCreate p r) = (r = Created)"
| "succeeded (CheckCall argv rc) = (rc = Some 0)"
| "succeeded (Touch p ok) = ok"
| "succeeded (SubprocessRun argv cwd rc) = (rc = Some 0)"

subsection \<open>A concrete host, for evaluating the functions\<close>

definition posix_host :: host where
  "posix_host = \<lparr>os_name = ''posix'', home = Path ''/'' [''home'', ''u''], sep = ''/'',
                 resolve = (\<lambda>p. p)\<rparr>"

definition nt_host :: host where
  "nt_host = \<lparr>os_name = ''nt'', home = Path (''C:'' @ [CHR 0x5C]) [''Users'', ''u''],
              sep = [CHR 0x5C],
              resolve = (\<lambda>p. p)\<rparr>"

text \<open>Every call succeeds; every process exits with the given status.\<close>

definition exits_with :: "int \<Rightarrow> outside" where
  "exits_with c = \<lparr>mkdir_ok = (\<lambda>w p. True), venv_result = (\<lambda>w p. Created),
                   touch_ok = (\<lambda>w p. True), exit_status = (\<lambda>w argv cwd. Some c)\<rparr>"

text \<open>The installer (\<^verbatim>\<open>check_call\<close>, no working directory given) exits with 1, the rest succeeds.\<close>

definition pip_fails :: outside where
  "pip_fails = \<lparr>mkdir_ok = (\<lambda>w p. True), venv_result = (\<lambda>w p. Created),
                touch_ok = (\<lambda>w p. True),
                exit_status = (\<lambda>w argv cwd. case cwd of None \<Rightarrow> Some 1 | Some d \<Rightarrow> Some 0)\<rparr>"

text \<open>The agent's process (\<^verbatim>\<open>run\<close>, with a working directory) exits with 3, the rest succeeds.\<close>

definition agent_fails :: outside where
  "agent_fails = \<lparr>mkdir_ok = (\<lambda>w p. True), venv_result = (\<lambda>w p. Created),
                  touch_ok = (\<lambda>w p. True),
                  exit_status = (\<lambda>w argv cwd. case cwd of None \<Rightarrow> Some 0 | Some d \<Rightarrow> Some 3)\<rparr>"

text \<open>\<^verbatim>\<open>venv.create\<close> fails and leaves the directory behind, the rest succeeds.\<close>

definition venv_breaks :: outside where
  "venv_breaks = \<lparr>mkdir_ok = (\<lambda>w p. True), venv_result = (\<lambda>w p. CreateFailed True OSError),
                  touch_ok = (\<lambda>w p. True), exit_status = (\<lambda>w argv cwd. Some 0)\<rparr>"

definition agent_dir0 :: path where
  "agent_dir0 = Path ''/'' [''srv'', ''bot'']"

definition manifest0 :: path where
  "manifest0 = Path ''/'' [''srv'', ''bot'', ''requirements.txt'']"

text \<open>A fresh machine: the home directory exists, \<^verbatim>\<open>~/.agents\<close> does not.\<close>

definition fresh :: world where
  "fresh = \<lparr>fs = set (dir_chain (Path ''/'' [''home'', ''u''])), trace = []\<rparr>"

text \<open>The same, with the agent's directory and its manifest.\<close>

definition fresh_with_manifest :: world where
  "fresh_with_manifest =
     \<lparr>fs = set (dir_chain (Path ''/'' [''home'', ''u''])) \<union> set (dir_chain manifest0),
      trace = []\<rparr>"

section \<open>Properties\<close>

text \<open>The equations that evaluate the model on a concrete input.\<close>

lemmas model_defs = ensure_env_def run_def cmd_of_def pip_argv_def python_executable_def
  env_dir_of_def marker_of_def mkdir_parents_def venv_create_def check_call_def touch_def
  subprocess_run_def log_def events_since_def str_path_def joinpath_def parent_def name_def
  dir_chain_def Let_def

lemmas example_defs = posix_host_def nt_host_def exits_with_def pip_fails_def venv_breaks_def
  agent_fails_def agent_dir0_def
  manifest0_def fresh_def fresh_with_manifest_def

subsection \<open>Paths\<close>

lemma inits_length: "ys \<in> set (inits xs) \<Longrightarrow> length ys \<le> length xs"
  by (induction xs arbitrary: ys) auto

lemma self_in_inits: "xs \<in> set (inits xs)"
  by (induction xs) auto

lemma inits_butlast: "set (inits (butlast xs)) \<subseteq> set (inits xs)"
  by (induction xs) auto

lemma self_in_dir_chain: "p \<in> set (dir_chain p)"
  by (cases p) (simp add: dir_chain_def self_in_inits)

lemma child_notin_dir_chain: "joinpath p s \<notin> set (dir_chain p)"
  by (auto simp: dir_chain_def joinpath_def dest: inits_length)

lemma child_notin_parent_chain: "joinpath p s \<notin> set (dir_chain (parent p))"
  by (auto simp: dir_chain_def joinpath_def parent_def dest!: inits_length)

lemma parent_chain_subset: "set (dir_chain (parent p)) \<subseteq> set (dir_chain p)"
  using inits_butlast by (auto simp: dir_chain_def parent_def)

subsection \<open>\<^verbatim>\<open>ensure_env\<close>, case by case\<close>

lemma ensure_env_present_None:
  "env_dir_of h n \<in> fs w \<Longrightarrow> ensure_env h orc n None w = (Inr (env_dir_of h n), w)"
  by (simp add: ensure_env_def)

lemma ensure_env_present_skip:
  "env_dir_of h n \<in> fs w \<Longrightarrow> m \<notin> fs w \<or> marker_of h n \<in> fs w \<Longrightarrow>
   ensure_env h orc n (Some m) w = (Inr (env_dir_of h n), w)"
  by (auto simp add: ensure_env_def marker_of_def)

lemma ensure_env_present_install:
  "env_dir_of h n \<in> fs w \<Longrightarrow> m \<in> fs w \<Longrightarrow> marker_of h n \<notin> fs w \<Longrightarrow>
   ensure_env h orc n (Some m) w =
     (case exit_status orc w (pip_argv h (env_dir_of h n) m) None of
        None \<Rightarrow> (Inl OSError,
                  log (CheckCall (pip_argv h (env_dir_of h n) m) None) w)
      | Some c \<Rightarrow>
          if c \<noteq> 0
          then (Inl (CalledProcessError c (pip_argv h (env_dir_of h n) m)),
                log (CheckCall (pip_argv h (env_dir_of h n) m) (Some c)) w)
          else if touch_ok orc (log (CheckCall (pip_argv h (env_dir_of h n) m) (Some 0)) w)
                    (marker_of h n)
          then (Inr (env_dir_of h n),
                log (Touch (marker_of h n) True)
                  ((log (CheckCall (pip_argv h (env_dir_of h n) m) (Some 0)) w)
                     \<lparr>fs := insert (marker_of h n) (fs w)\<rparr>))
          else (Inl OSError,
                log (Touch (marker_of h n) False)
                  (log (CheckCall (pip_argv h (env_dir_of h n) m) (Some 0)) w)))"
  by (simp add: ensure_env_def marker_of_def check_call_def touch_def log_def Let_def
      split: option.splits)

lemma ensure_env_missing_mkdir_fails:
  "env_dir_of h n \<notin> fs w \<Longrightarrow> \<not> mkdir_ok orc w (parent (env_dir_of h n)) \<Longrightarrow>
   ensure_env h orc n req w =
     (Inl OSError, log (Mkdir (parent (env_dir_of h n)) False) w)"
  by (simp add: ensure_env_def mkdir_parents_def)

lemma ensure_env_missing_venv_fails:
  "env_dir_of h n \<notin> fs w \<Longrightarrow> mkdir_ok orc w (parent (env_dir_of h n)) \<Longrightarrow>
   venv_result orc (made_parents h n w) (env_dir_of h n) = CreateFailed left e \<Longrightarrow>
   ensure_env h orc n req w =
     (Inl e,
      log (VenvCreate (env_dir_of h n) (CreateFailed left e))
        ((made_parents h n w)
           \<lparr>fs := (if left then insert (env_dir_of h n) (fs (made_parents h n w))
                   else fs (made_parents h n w))\<rparr>))"
  by (simp add: ensure_env_def mkdir_parents_def venv_create_def made_parents_def Let_def)

lemma ensure_env_missing_created:
  "env_dir_of h n \<notin> fs w \<Longrightarrow> mkdir_ok orc w (parent (env_dir_of h n)) \<Longrightarrow>
   venv_result orc (made_parents h n w) (env_dir_of h n) = Created \<Longrightarrow>
   ensure_env h orc n req w = ensure_env h orc n req (made_env h n w)"
  by (simp add: ensure_env_def mkdir_parents_def venv_create_def made_parents_def made_env_def
      log_def self_in_dir_chain Let_def)

lemma trace_log: "trace (log e w) = trace w @ [e]"
  by (simp add: log_def)

lemma fs_log: "fs (log e w) = fs w"
  by (simp add: log_def)

lemma trace_made_env:
  "trace (made_env h n w) =
     trace w @ [Mkdir (parent (env_dir_of h n)) True, VenvCreate (env_dir_of h n) Created]"
  by (simp add: made_env_def made_parents_def log_def)

lemma fs_made_parents:
  "fs (made_parents h n w) = fs w \<union> set (dir_chain (parent (env_dir_of h n)))"
  by (simp add: made_parents_def log_def)

lemma fs_made_env: "fs (made_env h n w) = fs w \<union> set (dir_chain (env_dir_of h n))"
  using parent_chain_subset [of "env_dir_of h n"]
  by (auto simp: made_env_def made_parents_def log_def)

lemma env_in_made_env: "env_dir_of h n \<in> fs (made_env h n w)"
  by (simp add: fs_made_env self_in_dir_chain)

lemma marker_made_env: "marker_of h n \<in> fs (made_env h n w) \<longleftrightarrow> marker_of h n \<in> fs w"
  by (simp add: fs_made_env marker_of_def child_notin_dir_chain)

lemma marker_made_parents:
  "marker_of h n \<in> fs (made_parents h n w) \<longleftrightarrow> marker_of h n \<in> fs w"
  by (simp add: fs_made_parents marker_of_def child_notin_parent_chain)

lemma marker_neq_env: "marker_of h n \<noteq> env_dir_of h n"
  by (cases "env_dir_of h n") (simp add: marker_of_def joinpath_def)

lemma events_since_self: "events_since w w = []"
  by (simp add: events_since_def)


lemma ensure_env_cases [consumes 1, case_names present mkdir_failed venv_failed created]:
  assumes "ensure_env h orc n req w = (r, w1)"
  obtains "env_dir_of h n \<in> fs w"
  | "env_dir_of h n \<notin> fs w" and "r = Inl OSError"
      and "w1 = log (Mkdir (parent (env_dir_of h n)) False) w"
  | left e where "env_dir_of h n \<notin> fs w" and "r = Inl e"
      and "w1 = log (VenvCreate (env_dir_of h n) (CreateFailed left e))
             ((made_parents h n w)
                \<lparr>fs := (if left then insert (env_dir_of h n) (fs (made_parents h n w))
                        else fs (made_parents h n w))\<rparr>)"
  | "env_dir_of h n \<notin> fs w" and "ensure_env h orc n req (made_env h n w) = (r, w1)"
proof (cases "env_dir_of h n \<in> fs w")
  case True
  then show ?thesis by (rule that(1))
next
  case absent: False
  show ?thesis
  proof (cases "mkdir_ok orc w (parent (env_dir_of h n))")
    case False
    with absent assms show ?thesis
      by (intro that(2)) (simp_all add: ensure_env_missing_mkdir_fails)
  next
    case ok: True
    show ?thesis
    proof (cases "venv_result orc (made_parents h n w) (env_dir_of h n)")
      case Created
      with absent ok assms show ?thesis
        by (intro that(4)) (simp_all add: ensure_env_missing_created)
    next
      case (CreateFailed left e)
      with absent ok assms show ?thesis
        by (intro that(3) [of e left]) (simp_all add: ensure_env_missing_venv_fails)
    qed
  qed
qed


lemma ensure_env_present_cases [consumes 2, case_names skipped pip_failed touch_failed installed]:
  assumes "env_dir_of h n \<in> fs w" and "ensure_env h orc n req w = (r, w1)"
  obtains "r = Inr (env_dir_of h n)" and "w1 = w"
      and "req = None \<or> (\<exists>m. req = Some m \<and> (m \<notin> fs w \<or> marker_of h n \<in> fs w))"
  | m rc where "req = Some m" and "m \<in> fs w" and "marker_of h n \<notin> fs w"
      and "exit_status orc w (pip_argv h (env_dir_of h n) m) None = rc" and "rc \<noteq> Some 0"
      and "w1 = log (CheckCall (pip_argv h (env_dir_of h n) m) rc) w"
      and "r = (case rc of None \<Rightarrow> Inl OSError
                | Some c \<Rightarrow> Inl (CalledProcessError c
                                   (pip_argv h (env_dir_of h n) m)))"
  | m where "req = Some m" and "m \<in> fs w" and "marker_of h n \<notin> fs w"
      and "exit_status orc w (pip_argv h (env_dir_of h n) m) None = Some 0"
      and "w1 = log (Touch (marker_of h n) False)
                  (log (CheckCall (pip_argv h (env_dir_of h n) m) (Some 0)) w)"
      and "r = Inl OSError"
  | m where "req = Some m" and "m \<in> fs w" and "marker_of h n \<notin> fs w"
      and "exit_status orc w (pip_argv h (env_dir_of h n) m) None = Some 0"
      and "w1 = log (Touch (marker_of h n) True)
                  ((log (CheckCall (pip_argv h (env_dir_of h n) m) (Some 0)) w)
                     \<lparr>fs := insert (marker_of h n) (fs w)\<rparr>)"
      and "r = Inr (env_dir_of h n)"
proof (cases req)
  case None
  with assms show ?thesis by (intro that(1)) (simp_all add: ensure_env_present_None)
next
  case (Some m)
  note req = this
  show ?thesis
  proof (cases "m \<in> fs w \<and> marker_of h n \<notin> fs w")
    case False
    then have skip: "m \<notin> fs w \<or> marker_of h n \<in> fs w" by blast
    from assms(2) have "(r, w1) = (Inr (env_dir_of h n), w)"
      by (simp add: req ensure_env_present_skip [OF assms(1) skip])
    with req skip show ?thesis by (intro that(1)) simp_all
  next
    case True
    then have m: "m \<in> fs w" and mk: "marker_of h n \<notin> fs w" by simp_all
    note unf = assms(2) [unfolded req ensure_env_present_install [OF assms(1) m mk]]
    show ?thesis
    proof (cases "exit_status orc w (pip_argv h (env_dir_of h n) m) None")
      case None
      with unf have "r = Inl OSError"
        and "w1 = log (CheckCall (pip_argv h (env_dir_of h n) m) None) w" by simp_all
      with req m mk None show ?thesis by (intro that(2) [of m None]) simp_all
    next
      case (Some c)
      note c = this
      show ?thesis
      proof (cases "c = 0")
        case False
        with unf c have "r = Inl (CalledProcessError c (pip_argv h (env_dir_of h n) m))"
          and "w1 = log (CheckCall (pip_argv h (env_dir_of h n) m) (Some c)) w" by simp_all
        with req m mk c False show ?thesis by (intro that(2) [of m "Some c"]) simp_all
      next
        case True
        note zero = this
        show ?thesis
        proof (cases "touch_ok orc (log (CheckCall (pip_argv h (env_dir_of h n) m) (Some 0)) w)
                    (marker_of h n)")
          case True
          with unf c zero have "r = Inr (env_dir_of h n)"
            and "w1 = log (Touch (marker_of h n) True)
                  ((log (CheckCall (pip_argv h (env_dir_of h n) m) (Some 0)) w)
                     \<lparr>fs := insert (marker_of h n) (fs w)\<rparr>)" by simp_all
          with req m mk c zero show ?thesis by (intro that(4) [of m]) simp_all
        next
          case False
          with unf c zero have "r = Inl OSError"
            and "w1 = log (Touch (marker_of h n) False)
                  (log (CheckCall (pip_argv h (env_dir_of h n) m) (Some 0)) w)" by simp_all
          with req m mk c zero show ?thesis by (intro that(3) [of m]) simp_all
        qed
      qed
    qed
  qed
qed

lemma trace_venv_failed:
  "trace (log (VenvCreate p (CreateFailed left e)) ((made_parents h n w)\<lparr>fs := X\<rparr>)) =
     trace w @ [Mkdir (parent (env_dir_of h n)) True, VenvCreate p (CreateFailed left e)]"
  by (simp add: log_def made_parents_def)

lemma fs_venv_failed:
  "fs (log (VenvCreate p (CreateFailed left e)) ((made_parents h n w)\<lparr>fs := X\<rparr>)) = X"
  by (simp add: log_def)

lemma env_in_settled: "env_dir_of h n \<in> fs (settled h n w)"
  by (simp add: settled_def env_in_made_env)

lemma trace_settled:
  "trace (settled h n w) =
     trace w @ (if env_dir_of h n \<in> fs w then []
                else [Mkdir (parent (env_dir_of h n)) True, VenvCreate (env_dir_of h n) Created])"
  by (simp add: settled_def trace_made_env)

lemma fs_settled:
  "fs (settled h n w) =
     (if env_dir_of h n \<in> fs w then fs w else fs w \<union> set (dir_chain (env_dir_of h n)))"
  by (simp add: settled_def fs_made_env)

lemma marker_settled: "marker_of h n \<in> fs (settled h n w) \<longleftrightarrow> marker_of h n \<in> fs w"
  by (simp add: settled_def marker_made_env)

lemma ensure_env_stages [consumes 1, case_names mkdir_failed venv_failed settled]:
  assumes "ensure_env h orc n req w = (r, w1)"
  obtains "env_dir_of h n \<notin> fs w" and "r = Inl OSError"
      and "w1 = log (Mkdir (parent (env_dir_of h n)) False) w"
  | left e where "env_dir_of h n \<notin> fs w" and "r = Inl e"
      and "w1 = log (VenvCreate (env_dir_of h n) (CreateFailed left e))
             ((made_parents h n w)
                \<lparr>fs := (if left then insert (env_dir_of h n) (fs (made_parents h n w))
                        else fs (made_parents h n w))\<rparr>)"
  | "ensure_env h orc n req (settled h n w) = (r, w1)"
  using assms
proof (cases rule: ensure_env_cases)
  case present
  with assms show ?thesis by (intro that(3)) (simp add: settled_def)
next
  case mkdir_failed
  then show ?thesis by (intro that(1))
next
  case (venv_failed left e)
  then show ?thesis by (intro that(2) [of e left])
next
  case created
  then show ?thesis by (intro that(3)) (simp add: settled_def)
qed

text \<open>In every call the trace grows, the file system grows, and no agent process is run.\<close>

lemma ensure_env_frame:
  assumes "ensure_env h orc n req w = (r, w1)"
  shows "trace w1 = trace w @ events_since w w1 \<and> fs w \<subseteq> fs w1 \<and>
         list_all (\<lambda>e. \<not> is_run e) (events_since w w1)"
  using assms
proof (cases rule: ensure_env_stages)
  case mkdir_failed
  then show ?thesis by (simp add: events_since_def trace_log fs_log)
next
  case (venv_failed left e)
  then show ?thesis
    by (auto simp: events_since_def trace_venv_failed fs_venv_failed fs_made_parents)
next
  case settled
  from env_in_settled settled show ?thesis
  proof (cases rule: ensure_env_present_cases)
    case skipped
    then show ?thesis by (auto simp: events_since_def trace_settled fs_settled)
  next
    case (pip_failed m rc)
    then show ?thesis by (auto simp: events_since_def trace_settled fs_settled trace_log fs_log)
  next
    case (touch_failed m)
    then show ?thesis by (auto simp: events_since_def trace_settled fs_settled trace_log fs_log)
  next
    case (installed m)
    then show ?thesis by (auto simp: events_since_def trace_settled fs_settled trace_log fs_log)
  qed
qed

lemma ensure_env_returns:
  assumes "ensure_env h orc n req w = (Inr p, w1)"
  shows "p = env_dir_of h n \<and> env_dir_of h n \<in> fs w1"
  using assms
proof (cases rule: ensure_env_stages)
  case settled
  from env_in_settled settled show ?thesis
  proof (cases rule: ensure_env_present_cases)
    case skipped
    then show ?thesis by (simp add: env_in_settled)
  next
    case (pip_failed m rc)
    then show ?thesis by (simp split: option.splits)
  next
    case (installed m)
    then show ?thesis using env_in_settled [of h n w] by (simp add: fs_log)
  qed simp
qed simp_all

subsection \<open>Dependencies are installed once\<close>

lemma events_since_settled_log1:
  "events_since w (log e (settled h n w)) =
     (if env_dir_of h n \<in> fs w then []
      else [Mkdir (parent (env_dir_of h n)) True, VenvCreate (env_dir_of h n) Created]) @ [e]"
  by (simp add: events_since_def trace_log trace_settled)

lemma events_since_settled_log2:
  "events_since w (log e2 (log e1 (settled h n w))) =
     (if env_dir_of h n \<in> fs w then []
      else [Mkdir (parent (env_dir_of h n)) True, VenvCreate (env_dir_of h n) Created]) @ [e1, e2]"
  by (simp add: events_since_def trace_log trace_settled)

lemma events_since_settled_log2_fs:
  "events_since w (log e2 ((log e1 (settled h n w))\<lparr>fs := X\<rparr>)) =
     (if env_dir_of h n \<in> fs w then []
      else [Mkdir (parent (env_dir_of h n)) True, VenvCreate (env_dir_of h n) Created]) @ [e1, e2]"
  by (simp add: events_since_def log_def trace_settled)

lemma events_since_settled:
  "events_since w (settled h n w) =
     (if env_dir_of h n \<in> fs w then []
      else [Mkdir (parent (env_dir_of h n)) True, VenvCreate (env_dir_of h n) Created])"
  by (simp add: events_since_def trace_settled)

lemma manifest_settled: "m \<in> fs w \<Longrightarrow> m \<in> fs (settled h n w)"
  by (simp add: fs_settled)

lemma no_installer_when_marked:
  assumes "marker_of h n \<in> fs w"
  shows "filter is_installer_call (events_since w (snd (ensure_env h orc n req w))) = []"
proof -
  obtain r w1 where eq: "ensure_env h orc n req w = (r, w1)" by (cases "ensure_env h orc n req w")
  from eq have "filter is_installer_call (events_since w w1) = []"
  proof (cases rule: ensure_env_stages)
    case mkdir_failed
    then show ?thesis by (simp add: events_since_def trace_log)
  next
    case (venv_failed left e)
    then show ?thesis by (simp add: events_since_def trace_venv_failed)
  next
    case settled
    from env_in_settled settled show ?thesis
    proof (cases rule: ensure_env_present_cases)
      case skipped
      then show ?thesis by (simp add: events_since_settled)
    next
      case (pip_failed m rc)
      with assms show ?thesis by (simp add: marker_settled)
    next
      case (touch_failed m)
      with assms show ?thesis by (simp add: marker_settled)
    next
      case (installed m)
      with assms show ?thesis by (simp add: marker_settled)
    qed
  qed
  with eq show ?thesis by simp
qed

lemma installs_once_named:
  assumes "m \<in> fs w" and "marker_of h n \<notin> fs w"
    and "ensure_env h orc n (Some m) w = (r, w1)"
    and "list_all succeeded (events_since w w1)"
  shows "r = Inr (env_dir_of h n) \<and>
         events_since w w1 =
           (if env_dir_of h n \<in> fs w then []
            else [Mkdir (parent (env_dir_of h n)) True, VenvCreate (env_dir_of h n) Created]) @
           [CheckCall (pip_argv h (env_dir_of h n) m) (Some 0), Touch (marker_of h n) True] \<and>
         filter is_installer_call (events_since w w1) =
           [CheckCall (pip_argv h (env_dir_of h n) m) (Some 0)] \<and>
         marker_of h n \<in> fs w1 \<and>
         (\<forall>orc' w2. marker_of h n \<in> fs w2 \<longrightarrow>
            filter is_installer_call
              (events_since w2 (snd (ensure_env h orc' n (Some m) w2))) = [])"
proof -
  have later: "\<forall>orc' w2. marker_of h n \<in> fs w2 \<longrightarrow>
            filter is_installer_call
              (events_since w2 (snd (ensure_env h orc' n (Some m) w2))) = []"
    by (simp add: no_installer_when_marked)
  from assms(3) have "r = Inr (env_dir_of h n) \<and>
         events_since w w1 =
           (if env_dir_of h n \<in> fs w then []
            else [Mkdir (parent (env_dir_of h n)) True, VenvCreate (env_dir_of h n) Created]) @
           [CheckCall (pip_argv h (env_dir_of h n) m) (Some 0), Touch (marker_of h n) True] \<and>
         marker_of h n \<in> fs w1"
  proof (cases rule: ensure_env_stages)
    case mkdir_failed
    with assms(4) show ?thesis by (simp add: events_since_def trace_log)
  next
    case (venv_failed left e)
    with assms(4) show ?thesis by (simp add: events_since_def trace_venv_failed)
  next
    case settled
    from env_in_settled settled show ?thesis
    proof (cases rule: ensure_env_present_cases)
      case skipped
      with assms(1,2) show ?thesis by (simp add: marker_settled manifest_settled)
    next
      case (pip_failed m' rc)
      with assms(4) show ?thesis by (simp add: events_since_settled_log1)
    next
      case (touch_failed m')
      with assms(4) show ?thesis by (simp add: events_since_settled_log2)
    next
      case (installed m')
      then show ?thesis by (simp add: events_since_settled_log2_fs fs_log)
    qed
  qed
  with later show ?thesis by simp
qed

text \<open>The paths and the installer's command, written out.\<close>

lemma env_dir_of_parts:
  "env_dir_of h n = Path (anchor (home h)) (parts (home h) @ [''.agents'', n])"
  by (simp add: env_dir_of_def joinpath_def)

lemma parent_env_dir_parts:
  "parent (env_dir_of h n) = Path (anchor (home h)) (parts (home h) @ [''.agents''])"
  by (simp add: env_dir_of_def joinpath_def parent_def butlast_append)

lemma marker_of_parts:
  "marker_of h n =
     Path (anchor (home h)) (parts (home h) @ [''.agents'', n, ''.requirements_installed''])"
  by (simp add: marker_of_def env_dir_of_def joinpath_def)

lemma pip_argv_parts:
  "pip_argv h (env_dir_of h n) m =
     [str_path h
        (Path (anchor (home h))
           (parts (home h) @ [''.agents'', n] @
              (if os_name h = ''nt'' then [''Scripts'', ''python.exe'']
               else [''bin'', ''python'']))),
      ''-m'', ''pip'', ''install'', ''-r'', str_path h m]"
  by (simp add: pip_argv_def python_executable_def env_dir_of_def joinpath_def)

text \<open>
  C1. For every agent name \<open>n\<close> and every manifest \<open>m\<close> that exists on disk, a call
  \<open>ensure(n, m)\<close> made while the marker \<^verbatim>\<open>~/.agents/n/.requirements_installed\<close> is absent,
  whose library calls all succeed, returns the environment path \<^verbatim>\<open>~/.agents/n\<close>,
  invokes the package installer exactly once, as
  \<^verbatim>\<open><environment interpreter> -m pip install -r m\<close> (after creating the environment when
  it was missing), and then creates the marker file; every call \<open>ensure(n, m)\<close> made
  with the marker present invokes the installer zero times.
\<close>

theorem ensure_env_installs_once:
  assumes "m \<in> fs w"
    and "Path (anchor (home h))
           (parts (home h) @ [''.agents'', n, ''.requirements_installed'']) \<notin> fs w"
    and "ensure_env h orc n (Some m) w = (r, w1)"
    and "list_all succeeded (events_since w w1)"
  shows "r = Inr (Path (anchor (home h)) (parts (home h) @ [''.agents'', n])) \<and>
         events_since w w1 =
           (if Path (anchor (home h)) (parts (home h) @ [''.agents'', n]) \<in> fs w then []
            else [Mkdir (Path (anchor (home h)) (parts (home h) @ [''.agents''])) True,
                  VenvCreate (Path (anchor (home h)) (parts (home h) @ [''.agents'', n]))
                    Created]) @
           [CheckCall
              [str_path h
                 (Path (anchor (home h))
                    (parts (home h) @ [''.agents'', n] @
                       (if os_name h = ''nt'' then [''Scripts'', ''python.exe'']
                        else [''bin'', ''python'']))),
               ''-m'', ''pip'', ''install'', ''-r'', str_path h m]
              (Some 0),
            Touch (Path (anchor (home h))
                     (parts (home h) @ [''.agents'', n, ''.requirements_installed''])) True] \<and>
         filter is_installer_call (events_since w w1) =
           [CheckCall
              [str_path h
                 (Path (anchor (home h))
                    (parts (home h) @ [''.agents'', n] @
                       (if os_name h = ''nt'' then [''Scripts'', ''python.exe'']
                        else [''bin'', ''python'']))),
               ''-m'', ''pip'', ''install'', ''-r'', str_path h m]
              (Some 0)] \<and>
         Path (anchor (home h))
           (parts (home h) @ [''.agents'', n, ''.requirements_installed'']) \<in> fs w1 \<and>
         (\<forall>orc' w2.
            Path (anchor (home h))
              (parts (home h) @ [''.agents'', n, ''.requirements_installed'']) \<in> fs w2 \<longrightarrow>
            filter is_installer_call
              (events_since w2 (snd (ensure_env h orc' n (Some m) w2))) = [])"
proof -
  from assms(2) have absent: "marker_of h n \<notin> fs w"
    by (simp add: marker_of_parts)
  note named = installs_once_named [OF assms(1) absent assms(3,4),
      unfolded pip_argv_parts parent_env_dir_parts marker_of_parts, unfolded env_dir_of_parts]
  then show ?thesis by simp
qed

lemma first_install_trace:
  "trace (snd (ensure_env posix_host (exits_with 0) ''bot'' (Some manifest0) fresh_with_manifest)) =
   [Mkdir (Path ''/'' [''home'', ''u'', ''.agents'']) True,
    VenvCreate (Path ''/'' [''home'', ''u'', ''.agents'', ''bot'']) Created,
    CheckCall [''/home/u/.agents/bot/bin/python'', ''-m'', ''pip'', ''install'',
               ''-r'', ''/srv/bot/requirements.txt''] (Some 0),
    Touch (Path ''/'' [''home'', ''u'', ''.agents'', ''bot'', ''.requirements_installed'']) True]"
  by (simp add: model_defs example_defs)

text \<open>
  On a fresh machine with the manifest \<^verbatim>\<open>/srv/bot/requirements.txt\<close>, the first call for
  the agent \<^verbatim>\<open>bot\<close> runs the installer once and writes the marker, and the call after it
  runs no installer.
\<close>

theorem ensure_env_installs_once_witness:
  "manifest0 \<in> fs fresh_with_manifest \<and>
   Path ''/'' [''home'', ''u'', ''.agents'', ''bot'', ''.requirements_installed''] \<notin>
     fs fresh_with_manifest \<and>
   list_all succeeded
     (events_since fresh_with_manifest
        (snd (ensure_env posix_host (exits_with 0) ''bot'' (Some manifest0) fresh_with_manifest))) \<and>
   fst (ensure_env posix_host (exits_with 0) ''bot'' (Some manifest0) fresh_with_manifest) =
     Inr (Path ''/'' [''home'', ''u'', ''.agents'', ''bot'']) \<and>
   filter is_installer_call
     (events_since fresh_with_manifest
        (snd (ensure_env posix_host (exits_with 0) ''bot'' (Some manifest0) fresh_with_manifest))) =
     [CheckCall [''/home/u/.agents/bot/bin/python'', ''-m'', ''pip'', ''install'', ''-r'',
                 ''/srv/bot/requirements.txt''] (Some 0)] \<and>
   Path ''/'' [''home'', ''u'', ''.agents'', ''bot'', ''.requirements_installed''] \<in>
     fs (snd (ensure_env posix_host (exits_with 0) ''bot'' (Some manifest0) fresh_with_manifest)) \<and>
   filter is_installer_call
     (events_since
        (snd (ensure_env posix_host (exits_with 0) ''bot'' (Some manifest0) fresh_with_manifest))
        (snd (ensure_env posix_host (exits_with 0) ''bot'' (Some manifest0)
           (snd (ensure_env posix_host (exits_with 0) ''bot'' (Some manifest0)
              fresh_with_manifest))))) = []"
proof -
  let ?w1 = "snd (ensure_env posix_host (exits_with 0) ''bot'' (Some manifest0) fresh_with_manifest)"
  let ?r = "fst (ensure_env posix_host (exits_with 0) ''bot'' (Some manifest0) fresh_with_manifest)"
  let ?marker = "Path ''/'' [''home'', ''u'', ''.agents'', ''bot'', ''.requirements_installed'']"
  have home: "anchor (home posix_host) = ''/''" "parts (home posix_host) = [''home'', ''u'']"
    "os_name posix_host = ''posix''"
    by (simp_all add: posix_host_def)
  have a: "manifest0 \<in> fs fresh_with_manifest"
    by (simp add: model_defs example_defs)
  have b: "Path (anchor (home posix_host))
             (parts (home posix_host) @ [''.agents'', ''bot'', ''.requirements_installed'']) \<notin>
           fs fresh_with_manifest"
    by (simp add: model_defs example_defs)
  have c: "ensure_env posix_host (exits_with 0) ''bot'' (Some manifest0) fresh_with_manifest =
             (?r, ?w1)"
    by simp
  have d: "list_all succeeded (events_since fresh_with_manifest ?w1)"
    by (simp add: events_since_def first_install_trace) (simp add: example_defs)
  have texts: "str_path posix_host (Path ''/'' [''home'', ''u'', ''.agents'', ''bot'', ''bin'', ''python'']) =
                 ''/home/u/.agents/bot/bin/python''"
    "str_path posix_host manifest0 = ''/srv/bot/requirements.txt''"
    by (simp_all add: str_path_def posix_host_def manifest0_def)
  note once = ensure_env_installs_once [OF a b c d, unfolded home]
  from once have res: "?r = Inr (Path ''/'' [''home'', ''u'', ''.agents'', ''bot''])"
    by simp
  from once have inst: "filter is_installer_call (events_since fresh_with_manifest ?w1) =
     [CheckCall [''/home/u/.agents/bot/bin/python'', ''-m'', ''pip'', ''install'', ''-r'',
                 ''/srv/bot/requirements.txt''] (Some 0)]"
    by (simp add: texts)
  from once have marked: "?marker \<in> fs ?w1"
    by simp
  from once marked have later: "filter is_installer_call
     (events_since ?w1
        (snd (ensure_env posix_host (exits_with 0) ''bot'' (Some manifest0) ?w1))) = []"
    by simp
  from b have b': "?marker \<notin> fs fresh_with_manifest" by (simp add: home)
  from a b' d res inst marked later show ?thesis by blast
qed

subsection \<open>A failed install leaves no marker\<close>

lemma installer_runs_when_unmarked:
  assumes "env_dir_of h n \<in> fs w" and "m \<in> fs w" and "marker_of h n \<notin> fs w"
  shows "filter is_installer_call (events_since w (snd (ensure_env h orc n (Some m) w))) =
           [CheckCall (pip_argv h (env_dir_of h n) m)
              (exit_status orc w (pip_argv h (env_dir_of h n) m) None)]"
proof -
  obtain r w1 where eq: "ensure_env h orc n (Some m) w = (r, w1)"
    by (cases "ensure_env h orc n (Some m) w")
  from assms(1) eq
  have "filter is_installer_call (events_since w w1) =
           [CheckCall (pip_argv h (env_dir_of h n) m)
              (exit_status orc w (pip_argv h (env_dir_of h n) m) None)]"
  proof (cases rule: ensure_env_present_cases)
    case skipped
    with assms show ?thesis by simp
  next
    case (pip_failed m' rc)
    then show ?thesis by (simp add: events_since_def trace_log)
  next
    case (touch_failed m')
    then show ?thesis by (simp add: events_since_def trace_log)
  next
    case (installed m')
    then show ?thesis by (simp add: events_since_def log_def)
  qed
  with eq show ?thesis by simp
qed

text \<open>
  C2. If during \<open>ensure(n, m)\<close> the installer subprocess exits non-zero, the call
  fails with the \<^verbatim>\<open>CalledProcessError\<close> of \<^verbatim>\<open>check_call\<close> (the spec's
  DependencyInstallError), carrying the exit status and the installer's command; the
  marker file does not exist afterwards; and a following call \<open>ensure(n, m)\<close> runs the
  installer again, whatever the outside answers then.
\<close>

theorem installer_failure_leaves_no_marker:
  assumes "ensure_env h orc n (Some m) w = (r, w1)"
    and "CheckCall argv (Some rc) \<in> set (events_since w w1)"
    and "rc \<noteq> 0"
  shows "r = Inl (CalledProcessError rc argv) \<and>
         argv = pip_argv h (env_dir_of h n) m \<and>
         marker_of h n \<notin> fs w1 \<and>
         filter is_installer_call (events_since w1 (snd (ensure_env h orc' n (Some m) w1))) =
           [CheckCall argv (exit_status orc' w1 argv None)]"
  using assms(1)
proof (cases rule: ensure_env_stages)
  case mkdir_failed
  with assms(2) show ?thesis by (simp add: events_since_def trace_log)
next
  case (venv_failed left e)
  with assms(2) show ?thesis by (simp add: events_since_def trace_venv_failed)
next
  case settled
  from env_in_settled settled show ?thesis
  proof (cases rule: ensure_env_present_cases)
    case skipped
    with assms(2) show ?thesis by (simp add: events_since_settled split: if_splits)
  next
    case (pip_failed m' rc')
    with assms(2) have rc': "rc' = Some rc" and argv: "argv = pip_argv h (env_dir_of h n) m"
      by (auto simp: events_since_settled_log1 split: if_splits)
    from pip_failed have env1: "env_dir_of h n \<in> fs w1" and m1: "m \<in> fs w1"
      and mk1: "marker_of h n \<notin> fs w1"
      using env_in_settled [of h n w] by (simp_all add: fs_log)
    from installer_runs_when_unmarked [OF env1 m1 mk1, of orc'] pip_failed rc' argv mk1
    show ?thesis by simp
  next
    case (touch_failed m')
    with assms(2,3) show ?thesis by (auto simp: events_since_settled_log2 split: if_splits)
  next
    case (installed m')
    with assms(2,3) show ?thesis by (auto simp: events_since_settled_log2_fs split: if_splits)
  qed
qed

lemma failed_install_trace:
  "trace (snd (ensure_env posix_host pip_fails ''bot'' (Some manifest0) fresh_with_manifest)) =
   [Mkdir (Path ''/'' [''home'', ''u'', ''.agents'']) True,
    VenvCreate (Path ''/'' [''home'', ''u'', ''.agents'', ''bot'']) Created,
    CheckCall [''/home/u/.agents/bot/bin/python'', ''-m'', ''pip'', ''install'',
               ''-r'', ''/srv/bot/requirements.txt''] (Some 1)]"
  by (simp add: model_defs example_defs)

text \<open>
  On the fresh machine with an installer that exits with 1: the call fails with that
  status, no marker is left, and the next call, with an installer that now exits with
  0, runs it again.
\<close>

theorem installer_failure_leaves_no_marker_witness:
  "CheckCall [''/home/u/.agents/bot/bin/python'', ''-m'', ''pip'', ''install'',
               ''-r'', ''/srv/bot/requirements.txt''] (Some 1) \<in>
     set (events_since fresh_with_manifest
        (snd (ensure_env posix_host pip_fails ''bot'' (Some manifest0) fresh_with_manifest))) \<and>
   (1::int) \<noteq> 0 \<and>
   fst (ensure_env posix_host pip_fails ''bot'' (Some manifest0) fresh_with_manifest) =
     Inl (CalledProcessError 1
            [''/home/u/.agents/bot/bin/python'', ''-m'', ''pip'', ''install'',
             ''-r'', ''/srv/bot/requirements.txt'']) \<and>
   marker_of posix_host ''bot'' \<notin>
     fs (snd (ensure_env posix_host pip_fails ''bot'' (Some manifest0) fresh_with_manifest)) \<and>
   filter is_installer_call
     (events_since
        (snd (ensure_env posix_host pip_fails ''bot'' (Some manifest0) fresh_with_manifest))
        (snd (ensure_env posix_host (exits_with 0) ''bot'' (Some manifest0)
           (snd (ensure_env posix_host pip_fails ''bot'' (Some manifest0)
              fresh_with_manifest))))) =
     [CheckCall [''/home/u/.agents/bot/bin/python'', ''-m'', ''pip'', ''install'',
                 ''-r'', ''/srv/bot/requirements.txt''] (Some 0)]"
proof -
  let ?w1 = "snd (ensure_env posix_host pip_fails ''bot'' (Some manifest0) fresh_with_manifest)"
  let ?r = "fst (ensure_env posix_host pip_fails ''bot'' (Some manifest0) fresh_with_manifest)"
  let ?argv = "[''/home/u/.agents/bot/bin/python'', ''-m'', ''pip'', ''install'',
               ''-r'', ''/srv/bot/requirements.txt'']"
  have a: "ensure_env posix_host pip_fails ''bot'' (Some manifest0) fresh_with_manifest = (?r, ?w1)"
    by simp
  have b: "CheckCall ?argv (Some 1) \<in> set (events_since fresh_with_manifest ?w1)"
    by (simp add: events_since_def failed_install_trace) (simp add: example_defs)
  have c: "(1::int) \<noteq> 0" by simp
  have d: "exit_status (exits_with 0) ?w1 ?argv None = Some 0"
    by (simp add: exits_with_def)
  from installer_failure_leaves_no_marker [OF a b c, of "exits_with 0"] b d show ?thesis
    by simp
qed

subsection \<open>Calling twice without a manifest\<close>

text \<open>
  C3. For every agent name \<open>n\<close>: when a call \<open>ensure(n)\<close> without a manifest has
  succeeded, a second call right after it returns the same path and leaves the world
  as it is (the environment directory is present before and after it, and the call
  adds no event, so no subprocess is invoked), whatever the outside would answer.
\<close>

theorem ensure_env_twice_without_manifest:
  assumes "ensure_env h orc n None w = (Inr p, w1)"
  shows "p = env_dir_of h n \<and> env_dir_of h n \<in> fs w1 \<and>
         ensure_env h orc' n None w1 = (Inr p, w1) \<and>
         env_dir_of h n \<in> fs (snd (ensure_env h orc' n None w1)) \<and>
         filter is_subprocess (events_since w1 (snd (ensure_env h orc' n None w1))) = [] \<and>
         events_since w1 (snd (ensure_env h orc' n None w1)) = []"
proof -
  from ensure_env_returns [OF assms] have p: "p = env_dir_of h n"
    and env: "env_dir_of h n \<in> fs w1" by simp_all
  from env have "ensure_env h orc' n None w1 = (Inr (env_dir_of h n), w1)"
    by (rule ensure_env_present_None)
  with p env show ?thesis by (simp add: events_since_self)
qed

lemma first_call_without_manifest:
  "ensure_env posix_host (exits_with 0) ''bot'' None fresh =
     (Inr (Path ''/'' [''home'', ''u'', ''.agents'', ''bot'']),
      \<lparr>fs = set (dir_chain (Path ''/'' [''home'', ''u'', ''.agents'', ''bot''])),
       trace = [Mkdir (Path ''/'' [''home'', ''u'', ''.agents'']) True,
                VenvCreate (Path ''/'' [''home'', ''u'', ''.agents'', ''bot'']) Created]\<rparr>)"
  by (auto simp add: model_defs example_defs)

text \<open>
  On the fresh machine the first call creates \<^verbatim>\<open>/home/u/.agents/bot\<close>; the second call,
  even with an outside whose processes would exit with 1, changes nothing.
\<close>

theorem ensure_env_twice_without_manifest_witness:
  "fst (ensure_env posix_host (exits_with 0) ''bot'' None fresh) =
     Inr (Path ''/'' [''home'', ''u'', ''.agents'', ''bot'']) \<and>
   ensure_env posix_host (exits_with 1) ''bot'' None
       (snd (ensure_env posix_host (exits_with 0) ''bot'' None fresh)) =
     (Inr (Path ''/'' [''home'', ''u'', ''.agents'', ''bot'']),
      snd (ensure_env posix_host (exits_with 0) ''bot'' None fresh)) \<and>
   events_since (snd (ensure_env posix_host (exits_with 0) ''bot'' None fresh))
     (snd (ensure_env posix_host (exits_with 1) ''bot'' None
        (snd (ensure_env posix_host (exits_with 0) ''bot'' None fresh)))) = []"
proof -
  have a: "ensure_env posix_host (exits_with 0) ''bot'' None fresh =
             (Inr (Path ''/'' [''home'', ''u'', ''.agents'', ''bot'']),
              snd (ensure_env posix_host (exits_with 0) ''bot'' None fresh))"
    by (simp add: first_call_without_manifest)
  note twice = ensure_env_twice_without_manifest [OF a, of "exits_with 1"]
  have first: "fst (ensure_env posix_host (exits_with 0) ''bot'' None fresh) =
     Inr (Path ''/'' [''home'', ''u'', ''.agents'', ''bot''])"
    by (simp add: first_call_without_manifest)
  from twice have second: "ensure_env posix_host (exits_with 1) ''bot'' None
       (snd (ensure_env posix_host (exits_with 0) ''bot'' None fresh)) =
     (Inr (Path ''/'' [''home'', ''u'', ''.agents'', ''bot'']),
      snd (ensure_env posix_host (exits_with 0) ''bot'' None fresh))"
    by (rule conjunct1 [OF conjunct2 [OF conjunct2]])
  from twice have quiet: "events_since (snd (ensure_env posix_host (exits_with 0) ''bot'' None fresh))
     (snd (ensure_env posix_host (exits_with 1) ''bot'' None
        (snd (ensure_env posix_host (exits_with 0) ''bot'' None fresh)))) = []"
    by (rule conjunct2 [OF conjunct2 [OF conjunct2 [OF conjunct2 [OF conjunct2]]]])
  from first second quiet show ?thesis by blast
qed

subsection \<open>The directory decides whether the environment is created\<close>

lemma run_unfold:
  "run h orc p c w =
     (case ensure_env h orc (name (resolve h p))
             (Some (joinpath (resolve h p) ''requirements.txt'')) w of
        (Inl e, w1) \<Rightarrow> (Inl e, w1)
      | (Inr env_dir, w1) \<Rightarrow>
          subprocess_run orc
            (str_path h (python_executable h env_dir) # cmd_of h (resolve h p) c)
            (str_path h (resolve h p)) w1)"
  by (simp add: run_def Let_def split: prod.splits sum.splits)

lemma subprocess_run_world:
  "snd (subprocess_run orc argv cwd w) =
     log (SubprocessRun argv cwd (exit_status orc w argv (Some cwd))) w"
  by (simp add: subprocess_run_def Let_def split: option.splits)

lemma run_keeps_files: "fs w \<subseteq> fs (snd (run h orc p c w))"
proof -
  obtain r w1 where eq: "ensure_env h orc (name (resolve h p))
             (Some (joinpath (resolve h p) ''requirements.txt'')) w = (r, w1)"
    by (cases "ensure_env h orc (name (resolve h p))
             (Some (joinpath (resolve h p) ''requirements.txt'')) w")
  from ensure_env_frame [OF eq] have "fs w \<subseteq> fs w1" by simp
  with eq show ?thesis
    by (cases r) (simp_all add: run_unfold subprocess_run_world fs_log)
qed

text \<open>
  C9. For every agent name, whether the environment's root directory exists is what
  decides alone whether \<open>ensure\<close> creates the environment: the call attempts creation
  (\<^verbatim>\<open>mkdir\<close> of the parent, then \<^verbatim>\<open>venv.create\<close>) exactly when the directory is absent,
  so a directory that exists, complete or not, is never created again or repaired.
  Neither \<open>ensure\<close> nor \<open>run\<close> removes a path: every path that exists before a call,
  the environment directory and the marker among them, exists after it.
\<close>

theorem env_dir_alone_decides_creation:
  assumes "ensure_env h orc n req w = (r, w1)"
  shows "(filter is_creation (events_since w w1) = []) = (env_dir_of h n \<in> fs w) \<and>
         fs w \<subseteq> fs w1 \<and>
         fs w \<subseteq> fs (snd (run h orc p c w))"
proof -
  from assms
  have "(filter is_creation (events_since w w1) = []) = (env_dir_of h n \<in> fs w)"
  proof (cases rule: ensure_env_stages)
    case mkdir_failed
    then show ?thesis by (simp add: events_since_def trace_log)
  next
    case (venv_failed left e)
    then show ?thesis by (simp add: events_since_def trace_venv_failed)
  next
    case settled
    from env_in_settled settled show ?thesis
    proof (cases rule: ensure_env_present_cases)
      case skipped
      then show ?thesis by (simp add: events_since_settled)
    next
      case (pip_failed m rc)
      then show ?thesis by (simp add: events_since_settled_log1)
    next
      case (touch_failed m)
      then show ?thesis by (simp add: events_since_settled_log2)
    next
      case (installed m)
      then show ?thesis by (simp add: events_since_settled_log2_fs)
    qed
  qed
  with ensure_env_frame [OF assms] run_keeps_files [of w h orc p c] show ?thesis by simp
qed

lemma half_made_world:
  "ensure_env posix_host venv_breaks ''bot'' None fresh =
     (Inl OSError,
      \<lparr>fs = insert (Path ''/'' [''home'', ''u'', ''.agents'', ''bot''])
              (set (dir_chain (Path ''/'' [''home'', ''u'', ''.agents'']))),
       trace = [Mkdir (Path ''/'' [''home'', ''u'', ''.agents'']) True,
                VenvCreate (Path ''/'' [''home'', ''u'', ''.agents'', ''bot''])
                  (CreateFailed True OSError)]\<rparr>)"
  by (auto simp add: model_defs example_defs)

text \<open>
  A creation that failed half-way leaves \<^verbatim>\<open>/home/u/.agents/bot\<close> behind; the next call
  finds the directory, creates nothing and returns it.
\<close>

theorem env_dir_alone_decides_creation_witness:
  "env_dir_of posix_host ''bot'' \<in>
     fs (snd (ensure_env posix_host venv_breaks ''bot'' None fresh)) \<and>
   filter is_creation
     (events_since (snd (ensure_env posix_host venv_breaks ''bot'' None fresh))
        (snd (ensure_env posix_host (exits_with 0) ''bot'' None
           (snd (ensure_env posix_host venv_breaks ''bot'' None fresh))))) = [] \<and>
   fs (snd (ensure_env posix_host venv_breaks ''bot'' None fresh)) \<subseteq>
     fs (snd (ensure_env posix_host (exits_with 0) ''bot'' None
           (snd (ensure_env posix_host venv_breaks ''bot'' None fresh))))"
proof -
  let ?w = "snd (ensure_env posix_host venv_breaks ''bot'' None fresh)"
  have a: "ensure_env posix_host (exits_with 0) ''bot'' None ?w =
             (fst (ensure_env posix_host (exits_with 0) ''bot'' None ?w),
              snd (ensure_env posix_host (exits_with 0) ''bot'' None ?w))"
    by simp
  have b: "env_dir_of posix_host ''bot'' \<in> fs ?w"
    by (simp add: half_made_world) (simp add: env_dir_of_def joinpath_def posix_host_def)
  from env_dir_alone_decides_creation [OF a] b show ?thesis by blast
qed

subsection \<open>A manifest that is not there\<close>

text \<open>
  The manifest is looked for after the environment has been created. A manifest path
  that creation itself brings into existence is therefore found: with the environment
  directory \<^verbatim>\<open>/home/u/.agents/bot\<close> given as the manifest on the fresh machine, where
  it does not exist, the call creates the directory and then runs the installer on it.
\<close>

theorem absent_manifest_counterexample:
  "env_dir_of posix_host ''bot'' \<notin> fs fresh \<and>
   filter is_installer_call
     (events_since fresh
        (snd (ensure_env posix_host pip_fails ''bot'' (Some (env_dir_of posix_host ''bot''))
           fresh))) =
     [CheckCall [''/home/u/.agents/bot/bin/python'', ''-m'', ''pip'', ''install'', ''-r'',
                 ''/home/u/.agents/bot''] (Some 1)]"
  by (simp add: model_defs example_defs)

text \<open>
  C6, amended. For every agent name \<open>n\<close>, a call of \<open>ensure\<close> with a manifest path that
  does not exist on disk, before the call and still after it (so a path that creating
  the environment does not itself bring into existence, as it does the environment
  directory and its ancestors), makes no install attempt: no installer subprocess, no
  marker written. The environment directory is still dealt with as always: creation is
  attempted exactly when it is missing, and when the calls made succeed the directory
  exists afterwards and the environment path is returned.
\<close>

theorem ensure_env_absent_manifest:
  assumes "ensure_env h orc n (Some m) w = (r, w1)" and "m \<notin> fs w1"
  shows "m \<notin> fs w \<and>
         filter is_installer_call (events_since w w1) = [] \<and>
         filter is_touch (events_since w w1) = [] \<and>
         (marker_of h n \<in> fs w1) = (marker_of h n \<in> fs w) \<and>
         (filter is_creation (events_since w w1) = []) = (env_dir_of h n \<in> fs w) \<and>
         (list_all succeeded (events_since w w1) \<longrightarrow>
            r = Inr (env_dir_of h n) \<and> env_dir_of h n \<in> fs w1)"
proof -
  from ensure_env_frame [OF assms(1)] assms(2) have before: "m \<notin> fs w" by blast
  from assms(1)
  have "filter is_installer_call (events_since w w1) = [] \<and>
         filter is_touch (events_since w w1) = [] \<and>
         (marker_of h n \<in> fs w1) = (marker_of h n \<in> fs w) \<and>
         (filter is_creation (events_since w w1) = []) = (env_dir_of h n \<in> fs w) \<and>
         (list_all succeeded (events_since w w1) \<longrightarrow>
            r = Inr (env_dir_of h n) \<and> env_dir_of h n \<in> fs w1)"
  proof (cases rule: ensure_env_stages)
    case mkdir_failed
    then show ?thesis by (simp add: events_since_def trace_log fs_log)
  next
    case (venv_failed left e)
    then show ?thesis
      by (simp add: events_since_def trace_venv_failed fs_venv_failed marker_made_parents
          marker_neq_env)
  next
    case settled
    from ensure_env_frame [OF settled] assms(2) have absent: "m \<notin> fs (settled h n w)"
      by blast
    from env_in_settled settled show ?thesis
    proof (cases rule: ensure_env_present_cases)
      case skipped
      then show ?thesis
        using env_in_settled [of h n w] by (simp add: events_since_settled marker_settled)
    next
      case (pip_failed m' rc)
      with absent show ?thesis by simp
    next
      case (touch_failed m')
      with absent show ?thesis by simp
    next
      case (installed m')
      with absent show ?thesis by simp
    qed
  qed
  with before show ?thesis by simp
qed

lemma absent_manifest_run:
  "ensure_env posix_host (exits_with 0) ''bot'' (Some manifest0) fresh =
     (Inr (Path ''/'' [''home'', ''u'', ''.agents'', ''bot'']),
      \<lparr>fs = set (dir_chain (Path ''/'' [''home'', ''u'', ''.agents'', ''bot''])),
       trace = [Mkdir (Path ''/'' [''home'', ''u'', ''.agents'']) True,
                VenvCreate (Path ''/'' [''home'', ''u'', ''.agents'', ''bot'']) Created]\<rparr>)"
  by (auto simp add: model_defs example_defs)

text \<open>
  On the fresh machine, where \<^verbatim>\<open>/srv/bot/requirements.txt\<close> does not exist: the
  environment is created, nothing is installed, the path is returned.
\<close>

theorem ensure_env_absent_manifest_witness:
  "manifest0 \<notin>
     fs (snd (ensure_env posix_host (exits_with 0) ''bot'' (Some manifest0) fresh)) \<and>
   list_all succeeded
     (events_since fresh
        (snd (ensure_env posix_host (exits_with 0) ''bot'' (Some manifest0) fresh))) \<and>
   manifest0 \<notin> fs fresh \<and>
   filter is_installer_call
     (events_since fresh
        (snd (ensure_env posix_host (exits_with 0) ''bot'' (Some manifest0) fresh))) = [] \<and>
   marker_of posix_host ''bot'' \<notin>
     fs (snd (ensure_env posix_host (exits_with 0) ''bot'' (Some manifest0) fresh)) \<and>
   fst (ensure_env posix_host (exits_with 0) ''bot'' (Some manifest0) fresh) =
     Inr (env_dir_of posix_host ''bot'') \<and>
   env_dir_of posix_host ''bot'' \<in>
     fs (snd (ensure_env posix_host (exits_with 0) ''bot'' (Some manifest0) fresh))"
proof -
  let ?r = "fst (ensure_env posix_host (exits_with 0) ''bot'' (Some manifest0) fresh)"
  let ?w1 = "snd (ensure_env posix_host (exits_with 0) ''bot'' (Some manifest0) fresh)"
  have a: "ensure_env posix_host (exits_with 0) ''bot'' (Some manifest0) fresh = (?r, ?w1)"
    by simp
  have b: "manifest0 \<notin> fs ?w1"
    by (simp add: absent_manifest_run) (simp add: model_defs example_defs)
  have d: "list_all succeeded (events_since fresh ?w1)"
    by (simp add: absent_manifest_run) (simp add: events_since_def fresh_def)
  have e: "marker_of posix_host ''bot'' \<notin> fs fresh"
    by (simp add: model_defs example_defs)
  from ensure_env_absent_manifest [OF a b] b d e show ?thesis by blast
qed

subsection \<open>What \<^verbatim>\<open>run\<close> spawns\<close>

lemma run_after_ensure:
  assumes "ensure_env h orc (name (resolve h p))
             (Some (joinpath (resolve h p) ''requirements.txt'')) w = (Inr env, w1)"
  shows "snd (run h orc p c w) =
           log (spawned orc (interpreter h p # cmd_of h (resolve h p) c)
                  (str_path h (resolve h p)) w1) w1"
proof -
  from ensure_env_returns [OF assms] have "env = env_dir_of h (name (resolve h p))" by simp
  with assms show ?thesis
    by (simp add: run_unfold subprocess_run_world spawned_def interpreter_def)
qed

lemma run_spawns_once:
  assumes "ensure_env h orc (name (resolve h p))
             (Some (joinpath (resolve h p) ''requirements.txt'')) w = (Inr env, w1)"
  shows "filter is_run (events_since w (snd (run h orc p c w))) =
           [spawned orc (interpreter h p # cmd_of h (resolve h p) c)
              (str_path h (resolve h p)) w1] \<and>
         events_since w1 (snd (run h orc p c w)) =
           [spawned orc (interpreter h p # cmd_of h (resolve h p) c)
              (str_path h (resolve h p)) w1]"
proof -
  from ensure_env_frame [OF assms]
  have tr: "trace w1 = trace w @ events_since w w1"
    and quiet: "list_all (\<lambda>e. \<not> is_run e) (events_since w w1)" by simp_all
  from quiet have none: "filter is_run (events_since w w1) = []"
    by (simp add: filter_empty_conv list_all_iff)
  from tr have "length (trace w) \<le> length (trace w1)"
    by (metis le_add1 length_append)
  then have "events_since w (log e w1) = events_since w w1 @ [e]" for e
    by (simp add: events_since_def trace_log)
  with none show ?thesis
    by (simp add: run_after_ensure [OF assms] spawned_def) (simp add: events_since_def trace_log)
qed

text \<open>
  C4. For every agent directory path \<open>p\<close>: when the environment has been ensured, \<open>run(p)\<close>
  without a command spawns exactly one process, the environment's interpreter with the
  single argument \<^verbatim>\<open>main.py\<close> inside the resolved agent directory, and its working
  directory is the resolved agent directory.
\<close>

theorem run_default_invocation:
  assumes "ensure_env h orc (name (resolve h p))
             (Some (joinpath (resolve h p) ''requirements.txt'')) w = (Inr env, w1)"
  shows "filter is_run (events_since w (snd (run h orc p None w))) =
           [spawned orc
              [str_path h (python_executable h (env_dir_of h (name (resolve h p)))),
               str_path h (joinpath (resolve h p) ''main.py'')]
              (str_path h (resolve h p)) w1] \<and>
         events_since w1 (snd (run h orc p None w)) =
           [spawned orc
              [str_path h (python_executable h (env_dir_of h (name (resolve h p)))),
               str_path h (joinpath (resolve h p) ''main.py'')]
              (str_path h (resolve h p)) w1]"
  using run_spawns_once [OF assms, of None] by (simp add: cmd_of_def interpreter_def)

lemma first_install_result:
  "ensure_env posix_host (exits_with 0) ''bot'' (Some manifest0) fresh_with_manifest =
     (Inr (Path ''/'' [''home'', ''u'', ''.agents'', ''bot'']),
      snd (ensure_env posix_host (exits_with 0) ''bot'' (Some manifest0) fresh_with_manifest))"
proof -
  have "fst (ensure_env posix_host (exits_with 0) ''bot'' (Some manifest0) fresh_with_manifest) =
          Inr (Path ''/'' [''home'', ''u'', ''.agents'', ''bot''])"
    by (simp add: model_defs example_defs)
  then show ?thesis by (simp add: prod_eq_iff)
qed

lemma agent_dir0_facts:
  "name (resolve posix_host agent_dir0) = ''bot''"
  "joinpath (resolve posix_host agent_dir0) ''requirements.txt'' = manifest0"
  "str_path posix_host (resolve posix_host agent_dir0) = ''/srv/bot''"
  "str_path posix_host (joinpath (resolve posix_host agent_dir0) ''main.py'') = ''/srv/bot/main.py''"
  "str_path posix_host (python_executable posix_host (env_dir_of posix_host ''bot'')) =
     ''/home/u/.agents/bot/bin/python''"
  by (simp_all add: model_defs example_defs)

text \<open>
  For the agent in \<^verbatim>\<open>/srv/bot\<close> on the fresh machine: the process spawned is
  \<^verbatim>\<open>/home/u/.agents/bot/bin/python /srv/bot/main.py\<close> in \<^verbatim>\<open>/srv/bot\<close>.
\<close>

theorem run_default_invocation_witness:
  "filter is_run
     (events_since fresh_with_manifest
        (snd (run posix_host (exits_with 0) agent_dir0 None fresh_with_manifest))) =
   [SubprocessRun [''/home/u/.agents/bot/bin/python'', ''/srv/bot/main.py''] ''/srv/bot''
      (Some 0)]"
proof -
  have a: "ensure_env posix_host (exits_with 0) (name (resolve posix_host agent_dir0))
             (Some (joinpath (resolve posix_host agent_dir0) ''requirements.txt''))
             fresh_with_manifest =
           (Inr (Path ''/'' [''home'', ''u'', ''.agents'', ''bot'']),
            snd (ensure_env posix_host (exits_with 0) ''bot'' (Some manifest0)
                   fresh_with_manifest))"
    using first_install_result by (simp add: agent_dir0_facts)
  from run_default_invocation [OF a] show ?thesis
    by (simp add: agent_dir0_facts spawned_def) (simp add: exits_with_def)
qed

lemma agent_bot_ensured:
  "ensure_env posix_host (exits_with 0) (name (resolve posix_host agent_dir0))
     (Some (joinpath (resolve posix_host agent_dir0) ''requirements.txt''))
     fresh_with_manifest =
   (Inr (Path ''/'' [''home'', ''u'', ''.agents'', ''bot'']),
    snd (ensure_env posix_host (exits_with 0) ''bot'' (Some manifest0) fresh_with_manifest))"
  using first_install_result by (simp add: agent_dir0_facts)

lemma interpreter_bot: "interpreter posix_host agent_dir0 = ''/home/u/.agents/bot/bin/python''"
  by (simp add: interpreter_def agent_dir0_facts)

text \<open>
  C5. The argument vector of \<open>run\<close>: when the command is one string or path, the
  arguments after the interpreter are exactly that one token as text (a string is one
  argument, it is not taken apart; a path is its \<^verbatim>\<open>str()\<close>); when the command is a
  sequence, they are its elements as text, in order, a path element again as its
  \<^verbatim>\<open>str()\<close>. So \<^verbatim>\<open>run(agent_path, command=["a", "b"])\<close> spawns the
  interpreter with the arguments \<^verbatim>\<open>a b\<close>; the working directory is the resolved agent
  directory in each case.
\<close>

theorem run_explicit_command:
  assumes "ensure_env h orc (name (resolve h p))
             (Some (joinpath (resolve h p) ''requirements.txt'')) w = (Inr env, w1)"
  shows "filter is_run (events_since w (snd (run h orc p (Some (Token c)) w))) =
           [spawned orc [interpreter h p, str_arg h c] (str_path h (resolve h p)) w1] \<and>
         filter is_run (events_since w (snd (run h orc p (Some (Token (StrArg s))) w))) =
           [spawned orc [interpreter h p, s] (str_path h (resolve h p)) w1] \<and>
         filter is_run (events_since w (snd (run h orc p (Some (Tokens cs)) w))) =
           [spawned orc (interpreter h p # map (str_arg h) cs) (str_path h (resolve h p)) w1] \<and>
         filter is_run
           (events_since w (snd (run h orc p (Some (Tokens [StrArg a, StrArg b])) w))) =
           [spawned orc [interpreter h p, a, b] (str_path h (resolve h p)) w1] \<and>
         filter is_run (events_since w (snd (run h orc p (Some (Token (PathArg q))) w))) =
           [spawned orc [interpreter h p, str_path h q] (str_path h (resolve h p)) w1] \<and>
         filter is_run
           (events_since w (snd (run h orc p (Some (Tokens [PathArg q, StrArg a])) w))) =
           [spawned orc [interpreter h p, str_path h q, a] (str_path h (resolve h p)) w1]"
  using run_spawns_once [OF assms, of "Some (Token c)"]
    run_spawns_once [OF assms, of "Some (Token (StrArg s))"]
    run_spawns_once [OF assms, of "Some (Tokens cs)"]
    run_spawns_once [OF assms, of "Some (Tokens [StrArg a, StrArg b])"]
    run_spawns_once [OF assms, of "Some (Token (PathArg q))"]
    run_spawns_once [OF assms, of "Some (Tokens [PathArg q, StrArg a])"]
  by (simp add: cmd_of_def)

text \<open>
  For the agent in \<^verbatim>\<open>/srv/bot\<close>: the command \<^verbatim>\<open>"serve now"\<close> is one argument, the
  command \<^verbatim>\<open>["a", "b"]\<close> is two, the command \<^verbatim>\<open>Path("tools/serve.py")\<close> is the one
  argument \<^verbatim>\<open>tools/serve.py\<close>, and \<^verbatim>\<open>[Path("/opt/x.py"), "--fast"]\<close> is
  \<^verbatim>\<open>/opt/x.py --fast\<close>.
\<close>

theorem run_explicit_command_witness:
  "filter is_run
     (events_since fresh_with_manifest
        (snd (run posix_host (exits_with 0) agent_dir0 (Some (Token (StrArg ''serve now'')))
           fresh_with_manifest))) =
     [SubprocessRun [''/home/u/.agents/bot/bin/python'', ''serve now''] ''/srv/bot'' (Some 0)] \<and>
   filter is_run
     (events_since fresh_with_manifest
        (snd (run posix_host (exits_with 0) agent_dir0
           (Some (Tokens [StrArg ''a'', StrArg ''b''])) fresh_with_manifest))) =
     [SubprocessRun [''/home/u/.agents/bot/bin/python'', ''a'', ''b''] ''/srv/bot'' (Some 0)] \<and>
   filter is_run
     (events_since fresh_with_manifest
        (snd (run posix_host (exits_with 0) agent_dir0
           (Some (Token (PathArg (Path [] [''tools'', ''serve.py''])))) fresh_with_manifest))) =
     [SubprocessRun [''/home/u/.agents/bot/bin/python'', ''tools/serve.py''] ''/srv/bot''
        (Some 0)] \<and>
   filter is_run
     (events_since fresh_with_manifest
        (snd (run posix_host (exits_with 0) agent_dir0
           (Some (Tokens [PathArg (Path ''/'' [''opt'', ''x.py'']), StrArg ''--fast'']))
           fresh_with_manifest))) =
     [SubprocessRun [''/home/u/.agents/bot/bin/python'', ''/opt/x.py'', ''--fast''] ''/srv/bot''
        (Some 0)]"
proof -
  have texts: "str_path posix_host (Path [] [''tools'', ''serve.py'']) = ''tools/serve.py''"
    "str_path posix_host (Path ''/'' [''opt'', ''x.py'']) = ''/opt/x.py''"
    by (simp_all add: str_path_def posix_host_def)
  have exits: "exit_status (exits_with 0) w argv cwd = Some 0" for w argv cwd
    by (simp add: exits_with_def)
  note strs = run_explicit_command [OF agent_bot_ensured,
      where c = "StrArg ''serve now''" and s = "''serve now''"
        and cs = "[StrArg ''a'', StrArg ''b'']" and a = "''a''" and b = "''b''"
        and q = "Path [] [''tools'', ''serve.py'']"]
  note paths = run_explicit_command [OF agent_bot_ensured,
      where c = "StrArg ''serve now''" and s = "''serve now''"
        and cs = "[StrArg ''a'', StrArg ''b'']" and a = "''--fast''" and b = "''b''"
        and q = "Path ''/'' [''opt'', ''x.py'']"]
  from strs have one: "filter is_run
     (events_since fresh_with_manifest
        (snd (run posix_host (exits_with 0) agent_dir0 (Some (Token (StrArg ''serve now'')))
           fresh_with_manifest))) =
     [SubprocessRun [''/home/u/.agents/bot/bin/python'', ''serve now''] ''/srv/bot'' (Some 0)]"
    by (simp add: interpreter_bot agent_dir0_facts spawned_def exits)
  from strs have two: "filter is_run
     (events_since fresh_with_manifest
        (snd (run posix_host (exits_with 0) agent_dir0
           (Some (Tokens [StrArg ''a'', StrArg ''b''])) fresh_with_manifest))) =
     [SubprocessRun [''/home/u/.agents/bot/bin/python'', ''a'', ''b''] ''/srv/bot'' (Some 0)]"
    by (simp add: interpreter_bot agent_dir0_facts spawned_def exits)
  from strs have three: "filter is_run
     (events_since fresh_with_manifest
        (snd (run posix_host (exits_with 0) agent_dir0
           (Some (Token (PathArg (Path [] [''tools'', ''serve.py''])))) fresh_with_manifest))) =
     [SubprocessRun [''/home/u/.agents/bot/bin/python'', ''tools/serve.py''] ''/srv/bot''
        (Some 0)]"
    by (simp add: interpreter_bot agent_dir0_facts spawned_def exits texts)
  from paths have four: "filter is_run
     (events_since fresh_with_manifest
        (snd (run posix_host (exits_with 0) agent_dir0
           (Some (Tokens [PathArg (Path ''/'' [''opt'', ''x.py'']), StrArg ''--fast'']))
           fresh_with_manifest))) =
     [SubprocessRun [''/home/u/.agents/bot/bin/python'', ''/opt/x.py'', ''--fast''] ''/srv/bot''
        (Some 0)]"
    by (simp add: interpreter_bot agent_dir0_facts spawned_def exits texts)
  from one two three four show ?thesis by blast
qed

text \<open>
  C10. \<^verbatim>\<open>run(agent_path, command=[])\<close>, with an explicitly empty sequence, spawns the
  environment's interpreter with no further argument: the empty sequence is not taken
  for an absent command, which alone gives the default \<^verbatim>\<open>main.py\<close> argument.
\<close>

theorem run_empty_command:
  assumes "ensure_env h orc (name (resolve h p))
             (Some (joinpath (resolve h p) ''requirements.txt'')) w = (Inr env, w1)"
  shows "filter is_run (events_since w (snd (run h orc p (Some (Tokens [])) w))) =
           [spawned orc [interpreter h p] (str_path h (resolve h p)) w1] \<and>
         filter is_run (events_since w (snd (run h orc p None w))) =
           [spawned orc [interpreter h p, str_path h (joinpath (resolve h p) ''main.py'')]
              (str_path h (resolve h p)) w1] \<and>
         snd (run h orc p (Some (Tokens [])) w) \<noteq> snd (run h orc p None w)"
proof -
  have empty: "filter is_run (events_since w (snd (run h orc p (Some (Tokens [])) w))) =
           [spawned orc [interpreter h p] (str_path h (resolve h p)) w1]"
    using run_spawns_once [OF assms, of "Some (Tokens [])"] by (simp add: cmd_of_def)
  have dflt: "filter is_run (events_since w (snd (run h orc p None w))) =
           [spawned orc [interpreter h p, str_path h (joinpath (resolve h p) ''main.py'')]
              (str_path h (resolve h p)) w1]"
    using run_spawns_once [OF assms, of None] by (simp add: cmd_of_def)
  have "snd (run h orc p (Some (Tokens [])) w) \<noteq> snd (run h orc p None w)"
  proof
    assume "snd (run h orc p (Some (Tokens [])) w) = snd (run h orc p None w)"
    with empty dflt show False by (simp add: spawned_def)
  qed
  with empty dflt show ?thesis by simp
qed

text \<open>For the agent in \<^verbatim>\<open>/srv/bot\<close>: the interpreter alone is spawned.\<close>

theorem run_empty_command_witness:
  "filter is_run
     (events_since fresh_with_manifest
        (snd (run posix_host (exits_with 0) agent_dir0 (Some (Tokens [])) fresh_with_manifest))) =
     [SubprocessRun [''/home/u/.agents/bot/bin/python''] ''/srv/bot'' (Some 0)]"
  using run_empty_command [OF agent_bot_ensured]
  by (simp add: interpreter_bot agent_dir0_facts spawned_def) (simp add: exits_with_def)

subsection \<open>How \<^verbatim>\<open>run\<close> fails\<close>

text \<open>
  When \<^verbatim>\<open>ensure_env\<close> fails with a \<^verbatim>\<open>CalledProcessError\<close>: the installer exited
  non-zero, or \<^verbatim>\<open>venv.create\<close> raised one.
\<close>

lemma ensure_env_called_process_error:
  assumes "ensure_env h orc n req w = (r, w1)"
  shows "(r = Inl (CalledProcessError rc argv)) =
           (CheckCall argv (Some rc) \<in> set (events_since w w1) \<and> rc \<noteq> 0 \<or>
            (\<exists>q left. VenvCreate q (CreateFailed left (CalledProcessError rc argv)) \<in>
                set (events_since w w1)))"
  using assms
proof (cases rule: ensure_env_stages)
  case mkdir_failed
  then show ?thesis by (simp add: events_since_def trace_log)
next
  case (venv_failed left e)
  then show ?thesis by (auto simp: events_since_def trace_venv_failed)
next
  case settled
  from env_in_settled settled show ?thesis
  proof (cases rule: ensure_env_present_cases)
    case skipped
    then show ?thesis by (simp add: events_since_settled)
  next
    case (pip_failed m rc')
    then show ?thesis by (auto simp: events_since_settled_log1 split: option.splits)
  next
    case (touch_failed m)
    then show ?thesis by (simp add: events_since_settled_log2)
  next
    case (installed m)
    then show ?thesis by (simp add: events_since_settled_log2_fs)
  qed
qed

lemma run_events:
  assumes "ensure_env h orc (name (resolve h p))
             (Some (joinpath (resolve h p) ''requirements.txt'')) w = (Inr env, w1)"
  shows "set (events_since w (snd (run h orc p c w))) =
           insert (spawned orc (interpreter h p # cmd_of h (resolve h p) c)
                     (str_path h (resolve h p)) w1)
             (set (events_since w w1))"
proof -
  from ensure_env_frame [OF assms] have tr: "trace w1 = trace w @ events_since w w1" by simp
  then have "length (trace w) \<le> length (trace w1)"
    by (metis le_add1 length_append)
  then have "events_since w (log e w1) = events_since w w1 @ [e]" for e
    by (simp add: events_since_def trace_log)
  then show ?thesis by (simp add: run_after_ensure [OF assms])
qed

text \<open>
  The claim that \<open>run\<close> fails with a ProcessExecutionError only if the agent process
  exited non-zero does not hold of the exception \<open>run\<close> raises: the installer's failure
  inside \<open>ensure\<close> comes out of \<open>run\<close> as the same \<^verbatim>\<open>CalledProcessError\<close>, and no agent
  process has been spawned.
\<close>

theorem run_error_counterexample:
  "fst (run posix_host pip_fails agent_dir0 None fresh_with_manifest) =
     Inl (CalledProcessError 1
            [''/home/u/.agents/bot/bin/python'', ''-m'', ''pip'', ''install'', ''-r'',
             ''/srv/bot/requirements.txt'']) \<and>
   filter is_run
     (events_since fresh_with_manifest
        (snd (run posix_host pip_fails agent_dir0 None fresh_with_manifest))) = []"
  by (simp add: model_defs example_defs)

text \<open>
  C8, amended. \<open>run(agent_path, command)\<close> fails with a \<^verbatim>\<open>CalledProcessError\<close> carrying
  a status and a command exactly when a process with that command exited with that
  non-zero status: the agent process spawned by \<open>run\<close>, or the installer run by
  \<open>ensure\<close>, or \<^verbatim>\<open>venv.create\<close> raising that error itself. An error out of \<open>ensure\<close>
  reaches the caller of \<open>run\<close> as it is, with nothing done after it (no retry, no
  spawn). When \<open>ensure\<close> returns, \<open>run\<close> spawns the agent process, fails with its
  \<^verbatim>\<open>CalledProcessError\<close> when it exits non-zero and returns its record when it exits
  with 0; so whenever \<open>run\<close> returns normally the exit code in the record is 0.
\<close>

theorem run_error_conditions:
  assumes "run h orc p c w = (r, w2)"
  shows "((r = Inl (CalledProcessError rc argv)) =
          ((\<exists>cwd. SubprocessRun argv cwd (Some rc) \<in> set (events_since w w2) \<and> rc \<noteq> 0) \<or>
           CheckCall argv (Some rc) \<in> set (events_since w w2) \<and> rc \<noteq> 0 \<or>
           (\<exists>q left. VenvCreate q (CreateFailed left (CalledProcessError rc argv)) \<in>
               set (events_since w w2)))) \<and>
         (\<forall>e w1. ensure_env h orc (name (resolve h p))
                    (Some (joinpath (resolve h p) ''requirements.txt'')) w = (Inl e, w1) \<longrightarrow>
                  r = Inl e \<and> w2 = w1) \<and>
         (\<forall>env w1. ensure_env h orc (name (resolve h p))
                    (Some (joinpath (resolve h p) ''requirements.txt'')) w = (Inr env, w1) \<longrightarrow>
                  events_since w1 w2 =
                    [spawned orc (interpreter h p # cmd_of h (resolve h p) c)
                       (str_path h (resolve h p)) w1] \<and>
                  r = (case exit_status orc w1 (interpreter h p # cmd_of h (resolve h p) c)
                              (Some (str_path h (resolve h p))) of
                         None \<Rightarrow> Inl OSError
                       | Some x \<Rightarrow>
                           if x \<noteq> 0
                           then Inl (CalledProcessError x
                                  (interpreter h p # cmd_of h (resolve h p) c))
                           else Inr \<lparr>args = interpreter h p # cmd_of h (resolve h p) c,
                                    returncode = 0\<rparr>)) \<and>
         (\<forall>cp. r = Inr cp \<longrightarrow> returncode cp = 0)"
proof -
  obtain r1 w1 where ens: "ensure_env h orc (name (resolve h p))
             (Some (joinpath (resolve h p) ''requirements.txt'')) w = (r1, w1)"
    by (cases "ensure_env h orc (name (resolve h p))
             (Some (joinpath (resolve h p) ''requirements.txt'')) w")
  from ensure_env_frame [OF ens]
  have quiet: "\<And>a d x. SubprocessRun a d x \<notin> set (events_since w w1)"
    by (auto simp: list_all_iff)
  note cpe = ensure_env_called_process_error [OF ens, of rc argv]
  show ?thesis
  proof (cases r1)
    case (Inl e)
    with ens assms have res: "r = Inl e" "w2 = w1" by (simp_all add: run_unfold)
    with cpe Inl quiet ens show ?thesis by simp
  next
    case (Inr env)
    with ens have ok: "ensure_env h orc (name (resolve h p))
             (Some (joinpath (resolve h p) ''requirements.txt'')) w = (Inr env, w1)" by simp
    let ?argv = "interpreter h p # cmd_of h (resolve h p) c"
    let ?cwd = "str_path h (resolve h p)"
    from ensure_env_returns [OF ok] have env: "env = env_dir_of h (name (resolve h p))" by simp
    from assms ok env have run: "subprocess_run orc ?argv ?cwd w1 = (r, w2)"
      by (simp add: run_unfold interpreter_def)
    from assms have w2: "w2 = snd (run h orc p c w)" by simp
    with run_events [OF ok, of c]
    have evs: "set (events_since w w2) =
                 insert (SubprocessRun ?argv ?cwd (exit_status orc w1 ?argv (Some ?cwd)))
                   (set (events_since w w1))"
      by (simp add: spawned_def)
    from run_spawns_once [OF ok, of c] w2
    have one: "events_since w1 w2 = [spawned orc ?argv ?cwd w1]" by simp
    from cpe Inr
    have none: "CheckCall argv (Some rc) \<notin> set (events_since w w1) \<or> rc = 0"
      and none': "\<And>q left. VenvCreate q (CreateFailed left (CalledProcessError rc argv)) \<notin>
                    set (events_since w w1)"
      by auto
    show ?thesis
    proof (cases "exit_status orc w1 ?argv (Some ?cwd)")
      case None
      with run have "r = Inl OSError" by (simp add: subprocess_run_def Let_def)
      with evs None quiet ok one none none' show ?thesis by auto
    next
      case (Some x)
      show ?thesis
      proof (cases "x = 0")
        case True
        with run Some have "r = Inr \<lparr>args = ?argv, returncode = 0\<rparr>"
          by (simp add: subprocess_run_def Let_def)
        with evs Some True quiet ok one none none' show ?thesis by auto
      next
        case False
        with run Some have "r = Inl (CalledProcessError x ?argv)"
          by (simp add: subprocess_run_def Let_def)
        with evs Some False quiet ok one none none' show ?thesis by auto
      qed
    qed
  qed
qed

lemma failed_install_result:
  "ensure_env posix_host pip_fails (name (resolve posix_host agent_dir0))
     (Some (joinpath (resolve posix_host agent_dir0) ''requirements.txt''))
     fresh_with_manifest =
   (Inl (CalledProcessError 1
           [''/home/u/.agents/bot/bin/python'', ''-m'', ''pip'', ''install'', ''-r'',
            ''/srv/bot/requirements.txt'']),
    snd (ensure_env posix_host pip_fails ''bot'' (Some manifest0) fresh_with_manifest))"
proof -
  have "fst (ensure_env posix_host pip_fails ''bot'' (Some manifest0) fresh_with_manifest) =
          Inl (CalledProcessError 1
           [''/home/u/.agents/bot/bin/python'', ''-m'', ''pip'', ''install'', ''-r'',
            ''/srv/bot/requirements.txt''])"
    by (simp add: model_defs example_defs)
  then show ?thesis by (simp add: prod_eq_iff agent_dir0_facts)
qed

lemma failing_agent_trace:
  "trace (snd (run posix_host agent_fails agent_dir0 None fresh_with_manifest)) =
   [Mkdir (Path ''/'' [''home'', ''u'', ''.agents'']) True,
    VenvCreate (Path ''/'' [''home'', ''u'', ''.agents'', ''bot'']) Created,
    CheckCall [''/home/u/.agents/bot/bin/python'', ''-m'', ''pip'', ''install'',
               ''-r'', ''/srv/bot/requirements.txt''] (Some 0),
    Touch (Path ''/'' [''home'', ''u'', ''.agents'', ''bot'', ''.requirements_installed'']) True,
    SubprocessRun [''/home/u/.agents/bot/bin/python'', ''/srv/bot/main.py''] ''/srv/bot''
      (Some 3)]"
  by (simp add: model_defs example_defs)

text \<open>
  An agent that exits with 3 makes \<open>run\<close> fail with that status and the agent's
  command; an installer that exits with 1 makes \<open>run\<close> fail with the error of
  \<open>ensure\<close>, in the world \<open>ensure\<close> left.
\<close>

theorem run_error_conditions_witness:
  "SubprocessRun [''/home/u/.agents/bot/bin/python'', ''/srv/bot/main.py''] ''/srv/bot''
      (Some 3) \<in>
     set (events_since fresh_with_manifest
            (snd (run posix_host agent_fails agent_dir0 None fresh_with_manifest))) \<and>
   fst (run posix_host agent_fails agent_dir0 None fresh_with_manifest) =
     Inl (CalledProcessError 3 [''/home/u/.agents/bot/bin/python'', ''/srv/bot/main.py'']) \<and>
   run posix_host pip_fails agent_dir0 None fresh_with_manifest =
     (Inl (CalledProcessError 1
             [''/home/u/.agents/bot/bin/python'', ''-m'', ''pip'', ''install'', ''-r'',
              ''/srv/bot/requirements.txt'']),
      snd (ensure_env posix_host pip_fails ''bot'' (Some manifest0) fresh_with_manifest))"
proof -
  let ?w2 = "snd (run posix_host agent_fails agent_dir0 None fresh_with_manifest)"
  let ?r = "fst (run posix_host agent_fails agent_dir0 None fresh_with_manifest)"
  let ?argv = "[''/home/u/.agents/bot/bin/python'', ''/srv/bot/main.py'']"
  have a: "run posix_host agent_fails agent_dir0 None fresh_with_manifest = (?r, ?w2)"
    by simp
  have ev: "SubprocessRun ?argv ''/srv/bot'' (Some 3) \<in>
              set (events_since fresh_with_manifest ?w2)"
    by (simp add: events_since_def failing_agent_trace) (simp add: example_defs)
  then have "\<exists>cwd. SubprocessRun ?argv cwd (Some 3) \<in>
                set (events_since fresh_with_manifest ?w2) \<and> (3::int) \<noteq> 0"
    by (intro exI [of _ "''/srv/bot''"]) simp
  with run_error_conditions [OF a, of 3 ?argv]
  have failed: "?r = Inl (CalledProcessError 3 ?argv)" by blast
  let ?w2' = "snd (run posix_host pip_fails agent_dir0 None fresh_with_manifest)"
  let ?r' = "fst (run posix_host pip_fails agent_dir0 None fresh_with_manifest)"
  have b: "run posix_host pip_fails agent_dir0 None fresh_with_manifest = (?r', ?w2')"
    by simp
  from run_error_conditions [OF b, of 0 "[]"] failed_install_result
  have "?r' = Inl (CalledProcessError 1
             [''/home/u/.agents/bot/bin/python'', ''-m'', ''pip'', ''install'', ''-r'',
              ''/srv/bot/requirements.txt'']) \<and>
        ?w2' = snd (ensure_env posix_host pip_fails ''bot'' (Some manifest0) fresh_with_manifest)"
    by blast
  then have "run posix_host pip_fails agent_dir0 None fresh_with_manifest =
     (Inl (CalledProcessError 1
             [''/home/u/.agents/bot/bin/python'', ''-m'', ''pip'', ''install'', ''-r'',
              ''/srv/bot/requirements.txt'']),
      snd (ensure_env posix_host pip_fails ''bot'' (Some manifest0) fresh_with_manifest))"
    by (simp add: prod_eq_iff)
  with ev failed show ?thesis by blast
qed

subsection \<open>The interpreter of an environment\<close>

lemma join_str_snoc: "xs \<noteq> [] \<Longrightarrow> join_str s (xs @ [x]) = join_str s xs @ s @ x"
  by (induction s xs rule: join_str.induct) simp_all

text \<open>
  C7. The interpreter of an environment root is \<^verbatim>\<open>Scripts/python.exe\<close> under the root
  when \<^verbatim>\<open>os.name\<close> is \<^verbatim>\<open>nt\<close> and \<^verbatim>\<open>bin/python\<close> under the root otherwise, and its text
  ends accordingly. Nothing else depends on the platform: the environment directory,
  the marker, the text of a path, the arguments after the interpreter and the
  installer's arguments after the interpreter are the same under every \<^verbatim>\<open>os.name\<close>, and
  two platforms on the same side of the test behave the same in \<open>ensure\<close> and \<open>run\<close>.
\<close>

theorem python_executable_platform_split:
  "python_executable h env_root =
     (if os_name h = ''nt'' then Path (anchor env_root) (parts env_root @ [''Scripts'', ''python.exe''])
      else Path (anchor env_root) (parts env_root @ [''bin'', ''python''])) \<and>
   str_path h (python_executable h (env_dir_of h n)) =
     str_path h (env_dir_of h n) @ sep h @
       (if os_name h = ''nt'' then ''Scripts'' @ sep h @ ''python.exe''
        else ''bin'' @ sep h @ ''python'') \<and>
   env_dir_of (h\<lparr>os_name := x\<rparr>) = env_dir_of h \<and>
   marker_of (h\<lparr>os_name := x\<rparr>) = marker_of h \<and>
   str_path (h\<lparr>os_name := x\<rparr>) = str_path h \<and>
   cmd_of (h\<lparr>os_name := x\<rparr>) = cmd_of h \<and>
   tl (pip_argv (h\<lparr>os_name := x\<rparr>) env_root m) = tl (pip_argv h env_root m) \<and>
   ((x = ''nt'') = (os_name h = ''nt'') \<longrightarrow>
      ensure_env (h\<lparr>os_name := x\<rparr>) = ensure_env h \<and> run (h\<lparr>os_name := x\<rparr>) = run h)"
proof -
  have exe: "python_executable h env_root =
     (if os_name h = ''nt'' then Path (anchor env_root) (parts env_root @ [''Scripts'', ''python.exe''])
      else Path (anchor env_root) (parts env_root @ [''bin'', ''python'']))"
    by (simp add: python_executable_def joinpath_def)
  have snoc2: "join_str s (xs @ [a, b]) = join_str s xs @ s @ a @ s @ b" if "xs \<noteq> []"
    for s :: string and xs a b
    using that join_str_snoc [of "xs @ [a]" s b] join_str_snoc [of xs s a] by simp
  have rendered: "str_path h (python_executable h (env_dir_of h n)) =
     str_path h (env_dir_of h n) @ sep h @
       (if os_name h = ''nt'' then ''Scripts'' @ sep h @ ''python.exe''
        else ''bin'' @ sep h @ ''python'')"
    using snoc2 [of "parts (home h) @ [''.agents'', n]" "sep h"]
    by (simp add: python_executable_def joinpath_def env_dir_of_def str_path_def)
  have str: "str_path (h\<lparr>os_name := x\<rparr>) = str_path h"
    by (simp add: fun_eq_iff str_path_def)
  have env: "env_dir_of (h\<lparr>os_name := x\<rparr>) = env_dir_of h"
    by (simp add: fun_eq_iff env_dir_of_def)
  have marker: "marker_of (h\<lparr>os_name := x\<rparr>) = marker_of h"
    by (simp add: fun_eq_iff marker_of_def env)
  have arg: "str_arg (h\<lparr>os_name := x\<rparr>) a = str_arg h a" for a
    by (cases a) (simp_all add: str)
  have cmd: "cmd_of (h\<lparr>os_name := x\<rparr>) = cmd_of h"
    by (simp add: fun_eq_iff cmd_of_def str arg split: option.splits command.splits)
  have pip: "tl (pip_argv (h\<lparr>os_name := x\<rparr>) env_root m) = tl (pip_argv h env_root m)"
    by (simp add: pip_argv_def str)
  have same: "ensure_env (h\<lparr>os_name := x\<rparr>) = ensure_env h \<and> run (h\<lparr>os_name := x\<rparr>) = run h"
    if side: "(x = ''nt'') = (os_name h = ''nt'')"
  proof -
    from side have py: "python_executable (h\<lparr>os_name := x\<rparr>) = python_executable h"
      by (auto simp: fun_eq_iff python_executable_def)
    then have pipa: "pip_argv (h\<lparr>os_name := x\<rparr>) = pip_argv h"
      by (simp add: fun_eq_iff pip_argv_def str)
    have ens: "ensure_env (h\<lparr>os_name := x\<rparr>) = ensure_env h"
      unfolding fun_eq_iff ensure_env_def env pipa by (intro allI refl)
    have "run (h\<lparr>os_name := x\<rparr>) = run h"
      unfolding fun_eq_iff run_def ens py cmd str by simp
    with ens show ?thesis by simp
  qed
  from exe rendered str env marker cmd pip same show ?thesis by blast
qed

text \<open>
  The interpreter of the agent \<^verbatim>\<open>bot\<close> on the two example hosts, and a third platform
  name that behaves as the POSIX one.
\<close>

theorem python_executable_platform_split_witness:
  "python_executable nt_host (env_dir_of nt_host ''bot'') =
     Path (''C:'' @ [CHR 0x5C]) [''Users'', ''u'', ''.agents'', ''bot'', ''Scripts'', ''python.exe''] \<and>
   python_executable posix_host (env_dir_of posix_host ''bot'') =
     Path ''/'' [''home'', ''u'', ''.agents'', ''bot'', ''bin'', ''python''] \<and>
   str_path posix_host (python_executable posix_host (env_dir_of posix_host ''bot'')) =
     ''/home/u/.agents/bot/bin/python'' \<and>
   ensure_env (posix_host\<lparr>os_name := ''java''\<rparr>) = ensure_env posix_host \<and>
   run (posix_host\<lparr>os_name := ''java''\<rparr>) = run posix_host"
proof -
  have side: "(''java'' = ''nt'') = (os_name posix_host = ''nt'')"
    by (simp add: posix_host_def)
  note on_nt = python_executable_platform_split
    [where h = nt_host and env_root = "env_dir_of nt_host ''bot''" and n = "''bot''"
       and x = "''nt''" and m = manifest0]
  note on_posix = python_executable_platform_split
    [where h = posix_host and env_root = "env_dir_of posix_host ''bot''" and n = "''bot''"
       and x = "''java''" and m = manifest0]
  from on_nt have "python_executable nt_host (env_dir_of nt_host ''bot'') =
     (if os_name nt_host = ''nt''
      then Path (anchor (env_dir_of nt_host ''bot''))
             (parts (env_dir_of nt_host ''bot'') @ [''Scripts'', ''python.exe''])
      else Path (anchor (env_dir_of nt_host ''bot''))
             (parts (env_dir_of nt_host ''bot'') @ [''bin'', ''python'']))"
    by (rule conjunct1)
  then have nt: "python_executable nt_host (env_dir_of nt_host ''bot'') =
     Path (''C:'' @ [CHR 0x5C]) [''Users'', ''u'', ''.agents'', ''bot'', ''Scripts'', ''python.exe'']"
    by (simp add: nt_host_def env_dir_of_def joinpath_def)
  from on_posix have "python_executable posix_host (env_dir_of posix_host ''bot'') =
     (if os_name posix_host = ''nt''
      then Path (anchor (env_dir_of posix_host ''bot''))
             (parts (env_dir_of posix_host ''bot'') @ [''Scripts'', ''python.exe''])
      else Path (anchor (env_dir_of posix_host ''bot''))
             (parts (env_dir_of posix_host ''bot'') @ [''bin'', ''python'']))"
    by (rule conjunct1)
  then have posix: "python_executable posix_host (env_dir_of posix_host ''bot'') =
     Path ''/'' [''home'', ''u'', ''.agents'', ''bot'', ''bin'', ''python'']"
    by (simp add: posix_host_def env_dir_of_def joinpath_def)
  from on_posix have "str_path posix_host (python_executable posix_host (env_dir_of posix_host ''bot'')) =
     str_path posix_host (env_dir_of posix_host ''bot'') @ sep posix_host @
       (if os_name posix_host = ''nt'' then ''Scripts'' @ sep posix_host @ ''python.exe''
        else ''bin'' @ sep posix_host @ ''python'')"
    by (rule conjunct1 [OF conjunct2])
  then have rendered: "str_path posix_host (python_executable posix_host (env_dir_of posix_host ''bot'')) =
     ''/home/u/.agents/bot/bin/python''"
    by (simp add: posix_host_def env_dir_of_def joinpath_def str_path_def)
  from on_posix side
  have same: "ensure_env (posix_host\<lparr>os_name := ''java''\<rparr>) = ensure_env posix_host \<and>
      run (posix_host\<lparr>os_name := ''java''\<rparr>) = run posix_host"
    by blast
  from nt posix rendered same show ?thesis by blast
qed

end
